theory Spec2Isabelle
  imports Complex_Main "HOL-Library.AList" "HOL-Library.Word"
begin

unbundle bit_operations_syntax

chapter \<open>The model\<close>

section \<open>JavaScript preliminaries\<close>

text \<open>
  A JavaScript string is modelled as a \<open>string\<close>; one \<open>char\<close> stands for one code unit,
  and the literals of the source are ASCII. A JavaScript number that counts, indexes or
  measures milliseconds is an \<open>int\<close>; an optional argument or field is an \<open>option\<close>
  (\<open>None\<close> is \<open>undefined\<close>).
\<close>

text \<open>\<open>x || d\<close> on an optional number: \<open>undefined\<close> and \<open>0\<close> are falsy.\<close>

definition js_or :: "int option \<Rightarrow> int \<Rightarrow> int" where
  "js_or x d = (case x of None \<Rightarrow> d | Some v \<Rightarrow> if v = 0 then d else v)"

definition js_or_bool :: "bool option \<Rightarrow> bool \<Rightarrow> bool" where
  "js_or_bool x d = (case x of None \<Rightarrow> d | Some v \<Rightarrow> if v then v else d)"

section \<open>Cache (utils/cache.ts)\<close>

record 'v CacheEntry =
  data :: 'v
  timestamp :: int
  expiry :: "int option"

record CacheOptions =
  ttl_opt :: "int option"
  maxSize_opt :: "int option"
  persistent_opt :: "bool option"

record RequiredCacheOptions =
  ttl :: int
  maxSize :: int
  persistent :: bool

text \<open>
  The \<open>Map<string, CacheEntry<T>>\<close> of the class is an association list in insertion
  order with distinct keys: \<open>Map.get\<close> is \<open>map_of\<close>, \<open>Map.set\<close> is \<open>AList.update\<close>
  (an existing key keeps its place, a new key goes to the end), \<open>Map.delete\<close> is
  \<open>AList.delete\<close>, \<open>Map.has\<close> is membership in the keys and \<open>Map.size\<close> is the length.
\<close>

record 'v Cache =
  cache :: "(string \<times> 'v CacheEntry) list"
  options :: RequiredCacheOptions
  accessOrder :: "string list"
  hits :: nat
  misses :: nat

definition Cache_new :: "CacheOptions \<Rightarrow> 'v Cache" where
  "Cache_new opts =
     \<lparr>cache = [],
      options = \<lparr>ttl = js_or (ttl_opt opts) 3600000,
                 maxSize = js_or (maxSize_opt opts) 1000,
                 persistent = js_or_bool (persistent_opt opts) False\<rparr>,
      accessOrder = [],
      hits = 0,
      misses = 0\<rparr>"

definition Map_has :: "(string \<times> 'e) list \<Rightarrow> string \<Rightarrow> bool" where
  "Map_has m key = (key \<in> set (map fst m))"

text \<open>\<open>indexOf\<close> followed by \<open>splice(index, 1)\<close>: the first occurrence goes.\<close>

definition removeFromAccessOrder :: "string \<Rightarrow> 'v Cache \<Rightarrow> 'v Cache" where
  "removeFromAccessOrder key c = c\<lparr>accessOrder := remove1 key (accessOrder c)\<rparr>"

definition updateAccessOrder :: "string \<Rightarrow> 'v Cache \<Rightarrow> 'v Cache" where
  "updateAccessOrder key c =
     (let c1 = removeFromAccessOrder key c
      in c1\<lparr>accessOrder := accessOrder c1 @ [key]\<rparr>)"

text \<open>\<open>delete\<close> returns whether the key was there, and the cache without it.\<close>

definition Cache_delete :: "string \<Rightarrow> 'v Cache \<Rightarrow> bool \<times> 'v Cache" where
  "Cache_delete key c =
     (let c1 = removeFromAccessOrder key c
      in (Map_has (cache c1) key, c1\<lparr>cache := AList.delete key (cache c1)\<rparr>))"

definition evictLRU :: "'v Cache \<Rightarrow> 'v Cache" where
  "evictLRU c =
     (case accessOrder c of
        [] \<Rightarrow> c
      | lruKey # _ \<Rightarrow> snd (Cache_delete lruKey c))"

text \<open>
  \<open>entry.expiry && Date.now() > entry.expiry\<close>: an absent expiry and an expiry of \<open>0\<close>
  are falsy. The clock \<open>Date.now()\<close> is the argument \<open>now\<close> of every operation that reads it.
\<close>

definition is_expired :: "int \<Rightarrow> 'v CacheEntry \<Rightarrow> bool" where
  "is_expired now entry =
     (case expiry entry of None \<Rightarrow> False | Some e \<Rightarrow> e \<noteq> 0 \<and> now > e)"

text \<open>\<open>get\<close>: \<open>None\<close> is the miss (\<open>null\<close>).\<close>

definition Cache_get :: "int \<Rightarrow> string \<Rightarrow> 'v Cache \<Rightarrow> 'v option \<times> 'v Cache" where
  "Cache_get now key c =
     (case map_of (cache c) key of
        None \<Rightarrow> (None, c\<lparr>misses := misses c + 1\<rparr>)
      | Some entry \<Rightarrow>
          if is_expired now entry then
            (let c1 = c\<lparr>cache := AList.delete key (cache c)\<rparr>;
                 c2 = removeFromAccessOrder key c1
             in (None, c2\<lparr>misses := misses c2 + 1\<rparr>))
          else
            (let c1 = updateAccessOrder key c
             in (Some (data entry), c1\<lparr>hits := hits c1 + 1\<rparr>)))"

text \<open>
  \<open>set\<close>: the optional third argument is \<open>ttl_arg\<close>. The two readings of the clock inside
  one call are the same instant \<open>now\<close>.
\<close>

definition Cache_set :: "int \<Rightarrow> string \<Rightarrow> 'v \<Rightarrow> int option \<Rightarrow> 'v Cache \<Rightarrow> 'v Cache" where
  "Cache_set now key d ttl_arg c =
     (let expiry_ms = js_or ttl_arg (ttl (options c));
          c1 = (if int (length (cache c)) \<ge> maxSize (options c) \<and> \<not> Map_has (cache c) key
                then evictLRU c else c);
          entry = \<lparr>data = d, timestamp = now,
                   expiry = (if expiry_ms > 0 then Some (now + expiry_ms) else None)\<rparr>;
          c2 = c1\<lparr>cache := AList.update key entry (cache c1)\<rparr>
      in updateAccessOrder key c2)"

definition Cache_clear :: "'v Cache \<Rightarrow> 'v Cache" where
  "Cache_clear c = c\<lparr>cache := [], accessOrder := []\<rparr>"

definition Cache_has :: "int \<Rightarrow> string \<Rightarrow> 'v Cache \<Rightarrow> bool \<times> 'v Cache" where
  "Cache_has now key c =
     (case map_of (cache c) key of
        None \<Rightarrow> (False, c)
      | Some entry \<Rightarrow>
          if is_expired now entry then (False, snd (Cache_delete key c))
          else (True, c))"

definition Cache_size :: "'v Cache \<Rightarrow> nat" where
  "Cache_size c = length (cache c)"

definition Cache_keys :: "'v Cache \<Rightarrow> string list" where
  "Cache_keys c = map fst (cache c)"

text \<open>
  The state the class keeps between calls: the keys of the map are distinct, and the
  access order lists exactly those keys, each once.
\<close>

definition cache_wf :: "'v Cache \<Rightarrow> bool" where
  "cache_wf c =
     (distinct (map fst (cache c)) \<and> distinct (accessOrder c) \<and>
      set (accessOrder c) = set (map fst (cache c)))"

text \<open>A run of \<open>set\<close> calls, each with its own clock reading, key, value and ttl argument.\<close>

fun Cache_set_all :: "(int \<times> string \<times> 'v \<times> int option) list \<Rightarrow> 'v Cache \<Rightarrow> 'v Cache" where
  "Cache_set_all [] c = c"
| "Cache_set_all ((now, key, d, ttl_arg) # rest) c = Cache_set_all rest (Cache_set now key d ttl_arg c)"

section \<open>Strings of the JavaScript runtime\<close>

fun starts_with :: "string \<Rightarrow> string \<Rightarrow> bool" where
  "starts_with s [] = True"
| "starts_with [] (n # ns) = False"
| "starts_with (c # cs) (n # ns) = (c = n \<and> starts_with cs ns)"

text \<open>\<open>haystack.includes(needle)\<close>.\<close>

fun js_includes :: "string \<Rightarrow> string \<Rightarrow> bool" where
  "js_includes [] needle = (needle = [])"
| "js_includes (c # cs) needle = (starts_with (c # cs) needle \<or> js_includes cs needle)"

text \<open>\<open>toLowerCase\<close> and \<open>toUpperCase\<close> on the ASCII letters; other characters stay.\<close>

definition lower_char :: "char \<Rightarrow> char" where
  "lower_char c =
     (if 65 \<le> (of_char c :: int) \<and> (of_char c :: int) \<le> 90
      then char_of ((of_char c :: int) + 32) else c)"

definition upper_char :: "char \<Rightarrow> char" where
  "upper_char c =
     (if 97 \<le> (of_char c :: int) \<and> (of_char c :: int) \<le> 122
      then char_of ((of_char c :: int) - 32) else c)"

definition toLowerCase :: "string \<Rightarrow> string" where
  "toLowerCase s = map lower_char s"

definition toUpperCase :: "string \<Rightarrow> string" where
  "toUpperCase s = map upper_char s"

text \<open>\<open>trim\<close> removes white space (tab, line feed, vertical tab, form feed, carriage
  return, space, no-break space) at both ends.\<close>

definition is_ws :: "char \<Rightarrow> bool" where
  "is_ws c = ((of_char c :: nat) \<in> {9, 10, 11, 12, 13, 32, 160})"

definition trim :: "string \<Rightarrow> string" where
  "trim s = rev (dropWhile is_ws (rev (dropWhile is_ws s)))"

text \<open>\<open>s.substring(a, b)\<close>: both indices are clamped to the string, and swapped when
  \<open>a > b\<close>.\<close>

definition substring :: "string \<Rightarrow> int \<Rightarrow> int \<Rightarrow> string" where
  "substring s a b =
     (let n = int (length s);
          a' = max 0 (min a n);
          b' = max 0 (min b n);
          lo = min a' b';
          hi = max a' b'
      in take (nat (hi - lo)) (drop (nat lo) s))"

text \<open>\<open>s.indexOf(needle, from)\<close> with \<open>from\<close> inside the string: the first index at or
  after \<open>from\<close> where \<open>needle\<close> starts, or \<open>-1\<close>.\<close>

fun index_from :: "string \<Rightarrow> string \<Rightarrow> nat \<Rightarrow> int" where
  "index_from [] needle i = (if needle = [] then int i else -1)"
| "index_from (c # cs) needle i =
     (if starts_with (c # cs) needle then int i else index_from cs needle (Suc i))"

definition indexOf :: "string \<Rightarrow> string \<Rightarrow> nat \<Rightarrow> int" where
  "indexOf s needle from = index_from (drop (min from (length s)) s) needle (min from (length s))"

text \<open>Decimal digits of a number, as a template literal or \<open>toString\<close> prints an integer.\<close>

definition digit_char :: "nat \<Rightarrow> char" where
  "digit_char d = ''0123456789'' ! d"

function String_of_nat :: "nat \<Rightarrow> string" where
  "String_of_nat n =
     (if n < 10 then [digit_char n] else String_of_nat (n div 10) @ [digit_char (n mod 10)])"
  by pat_completeness auto
termination
  by (relation "measure id") auto

declare String_of_nat.simps [simp del]

definition String_of_int :: "int \<Rightarrow> string" where
  "String_of_int i = (if i < 0 then ''-'' @ String_of_nat (nat (- i)) else String_of_nat (nat i))"

section \<open>Errors (exceptions/base.ts, exceptions/errors.ts, types/ownership-forms.ts)\<close>

text \<open>
  A thrown value is an object of one of the error classes, with the fields the classes
  set. \<open>cls\<close> is the class it was constructed from; \<open>instanceof\<close> follows \<open>extends\<close>.
\<close>

datatype error_class =
    Error_class
  | SecEdgarApiError_class
  | RateLimitError_class
  | AuthenticationError_class
  | NotFoundError_class
  | RequestError_class
  | TimeoutError_class
  | NetworkError_class
  | ValidationError_class
  | InvalidFormTypeError_class
  | OwnershipFormParseError_class

record error =
  cls :: error_class
  name :: string
  message :: string
  statusCode :: "int option"

fun superclass :: "error_class \<Rightarrow> error_class option" where
  "superclass Error_class = None"
| "superclass SecEdgarApiError_class = Some Error_class"
| "superclass RateLimitError_class = Some SecEdgarApiError_class"
| "superclass AuthenticationError_class = Some SecEdgarApiError_class"
| "superclass NotFoundError_class = Some SecEdgarApiError_class"
| "superclass RequestError_class = Some SecEdgarApiError_class"
| "superclass TimeoutError_class = Some RequestError_class"
| "superclass NetworkError_class = Some RequestError_class"
| "superclass ValidationError_class = Some SecEdgarApiError_class"
| "superclass InvalidFormTypeError_class = Some ValidationError_class"
| "superclass OwnershipFormParseError_class = Some Error_class"

text \<open>The chain of \<open>extends\<close> is at most three classes long.\<close>

definition subclass_of :: "error_class \<Rightarrow> error_class \<Rightarrow> bool" where
  "subclass_of c d =
     (c = d \<or> superclass c = Some d \<or>
      (case superclass c of
         None \<Rightarrow> False
       | Some c1 \<Rightarrow> superclass c1 = Some d \<or>
           (case superclass c1 of None \<Rightarrow> False | Some c2 \<Rightarrow> superclass c2 = Some d)))"

definition instanceof :: "error \<Rightarrow> error_class \<Rightarrow> bool" where
  "instanceof e c = subclass_of (cls e) c"

definition new_Error :: "string \<Rightarrow> error" where
  "new_Error msg = \<lparr>cls = Error_class, name = ''Error'', message = msg, statusCode = None\<rparr>"

definition new_SecEdgarApiError :: "string \<Rightarrow> int option \<Rightarrow> error" where
  "new_SecEdgarApiError msg sc =
     \<lparr>cls = SecEdgarApiError_class, name = ''SecEdgarApiError'', message = msg, statusCode = sc\<rparr>"

definition new_RateLimitError :: "string \<Rightarrow> error" where
  "new_RateLimitError msg =
     \<lparr>cls = RateLimitError_class, name = ''RateLimitError'', message = msg, statusCode = Some 429\<rparr>"

definition new_AuthenticationError :: "string \<Rightarrow> error" where
  "new_AuthenticationError msg =
     \<lparr>cls = AuthenticationError_class, name = ''AuthenticationError'', message = msg,
      statusCode = Some 401\<rparr>"

definition new_NotFoundError :: "string \<Rightarrow> error" where
  "new_NotFoundError msg =
     \<lparr>cls = NotFoundError_class, name = ''NotFoundError'', message = msg, statusCode = Some 404\<rparr>"

definition new_RequestError :: "string \<Rightarrow> string \<Rightarrow> int option \<Rightarrow> error" where
  "new_RequestError msg url sc =
     \<lparr>cls = RequestError_class, name = ''RequestError'', message = msg, statusCode = sc\<rparr>"

definition new_TimeoutError :: "string \<Rightarrow> int \<Rightarrow> error" where
  "new_TimeoutError url timeout_ms =
     \<lparr>cls = TimeoutError_class, name = ''TimeoutError'',
      message = ''Request timed out after '' @ String_of_int timeout_ms @ ''ms'',
      statusCode = None\<rparr>"

definition new_NetworkError :: "string \<Rightarrow> string \<Rightarrow> error" where
  "new_NetworkError msg url =
     \<lparr>cls = NetworkError_class, name = ''NetworkError'', message = msg, statusCode = None\<rparr>"

text \<open>\<open>join(', ')\<close> of the valid types.\<close>

fun join :: "string \<Rightarrow> string list \<Rightarrow> string" where
  "join sep [] = []"
| "join sep [x] = x"
| "join sep (x # y # ys) = x @ sep @ join sep (y # ys)"

definition new_InvalidFormTypeError :: "string \<Rightarrow> string list option \<Rightarrow> error" where
  "new_InvalidFormTypeError formType validTypes =
     \<lparr>cls = InvalidFormTypeError_class, name = ''InvalidFormTypeError'',
      message =
        (case validTypes of
           Some vs \<Rightarrow> ''Invalid form type: \"'' @ formType @ ''\". Valid types: '' @ join '', '' vs
         | None \<Rightarrow> ''Invalid form type: \"'' @ formType @ ''\"''),
      statusCode = None\<rparr>"


text \<open>\<open>ErrorHandler.isRetryable\<close> and \<open>ErrorHandler.getRetryDelay\<close>.\<close>

definition isRetryable :: "error \<Rightarrow> bool" where
  "isRetryable e =
     (if instanceof e RateLimitError_class then True
      else if instanceof e TimeoutError_class then True
      else if instanceof e NetworkError_class then True
      else if instanceof e RequestError_class \<and>
              (case statusCode e of
                 None \<Rightarrow> False
               | Some sc \<Rightarrow> (sc \<noteq> 0 \<and> sc \<ge> 500) \<or> sc = 408) then True
      else False)"

definition getRetryDelay :: "error \<Rightarrow> nat \<Rightarrow> int" where
  "getRetryDelay e attempt =
     (if instanceof e RateLimitError_class then min 60000 (2 ^ attempt * 5000)
      else min 30000 (2 ^ attempt * 1000))"

section \<open>HttpClient (utils/http-client.ts)\<close>

record HttpClientOptions =
  maxRetries_opt :: "int option"
  timeout_opt :: "int option"
  cache_enabled :: bool

record HttpClient =
  userAgent :: string
  maxRetries :: int
  timeout :: int
  has_cache :: bool

definition HttpClient_new :: "string \<Rightarrow> HttpClientOptions \<Rightarrow> HttpClient" where
  "HttpClient_new ua opts =
     \<lparr>userAgent = ua,
      maxRetries = js_or (maxRetries_opt opts) 3,
      timeout = js_or (timeout_opt opts) 30000,
      has_cache = cache_enabled opts\<rparr>"

text \<open>
  What one attempt meets: \<open>fetch\<close> rejects with an error (the abort of the timeout, a
  transport failure), or it resolves with a response of some status and status text,
  whose \<open>json()\<close> then yields the parsed body or throws.
\<close>

datatype 'a fetch_outcome =
    Rejects error
  | Responds int string "error + 'a"

definition handleHttpError :: "int \<Rightarrow> string \<Rightarrow> string \<Rightarrow> error" where
  "handleHttpError status statusText url =
     (if status = 401 then new_AuthenticationError (''Authentication failed: '' @ statusText)
      else if status = 404 then new_NotFoundError (''Resource not found: '' @ statusText)
      else if status = 429 then new_RateLimitError (''Rate limit exceeded: '' @ statusText)
      else new_RequestError (''HTTP '' @ String_of_int status @ '': '' @ statusText) url (Some status))"

text \<open>The body of the \<open>try\<close>: \<open>response.ok\<close> is a status from 200 to 299.\<close>

definition try_body :: "string \<Rightarrow> 'a fetch_outcome \<Rightarrow> error + 'a" where
  "try_body url oc =
     (case oc of
        Rejects e \<Rightarrow> Inl e
      | Responds status statusText body \<Rightarrow>
          if \<not> (200 \<le> status \<and> status \<le> 299) then Inl (handleHttpError status statusText url)
          else body)"

definition is_network_message :: "string \<Rightarrow> bool" where
  "is_network_message msg =
     (js_includes msg ''ENOTFOUND'' \<or> js_includes msg ''ECONNREFUSED'' \<or>
      js_includes msg ''ETIMEDOUT'' \<or> js_includes msg ''NetworkError'')"

text \<open>The \<open>catch\<close> block: it either throws the error on, or keeps it as \<open>lastError\<close>.\<close>

datatype caught = Rethrow error | Keep error

definition catch_block :: "HttpClient \<Rightarrow> string \<Rightarrow> error \<Rightarrow> caught" where
  "catch_block hc url e =
     (if instanceof e Error_class \<and> name e = ''AbortError'' then
        Keep (new_TimeoutError url (timeout hc))
      else if instanceof e Error_class \<and> is_network_message (message e) then
        Keep (new_NetworkError (message e) url)
      else if instanceof e SecEdgarApiError_class then
        (case statusCode e of
           Some sc \<Rightarrow>
             if sc \<noteq> 0 \<and> sc \<ge> 400 \<and> sc < 500 \<and> sc \<noteq> 429 then Rethrow e else Keep e
         | None \<Rightarrow> Keep e)
      else Keep e)"

text \<open>
  The result of \<open>get\<close>, with what a caller can observe of the run: how many attempts went
  out, the back-off sleeps between them in order, and the body written to the cache.
\<close>

record 'a get_result =
  outcome :: "error + 'a"
  attempts :: nat
  backoffs :: "int list"
  cache_write :: "'a option"

text \<open>
  The \<open>for\<close> loop from \<open>attempt\<close> on; \<open>world i\<close> is what attempt \<open>i\<close> meets. The rate-limit
  gate before each attempt only waits, so it is no part of the control flow.
\<close>

function get_loop ::
  "HttpClient \<Rightarrow> string \<Rightarrow> (nat \<Rightarrow> 'a fetch_outcome) \<Rightarrow> nat \<Rightarrow> error option \<Rightarrow> int list
     \<Rightarrow> 'a get_result" where
  "get_loop hc url world attempt lastError slept =
     (if int attempt \<le> maxRetries hc then
        (case try_body url (world attempt) of
           Inr body \<Rightarrow>
             \<lparr>outcome = Inr body, attempts = attempt + 1, backoffs = slept,
              cache_write = (if has_cache hc then Some body else None)\<rparr>
         | Inl e \<Rightarrow>
             (case catch_block hc url e of
                Rethrow e' \<Rightarrow>
                  \<lparr>outcome = Inl e', attempts = attempt + 1, backoffs = slept, cache_write = None\<rparr>
              | Keep e' \<Rightarrow>
                  if int attempt = maxRetries hc then
                    \<lparr>outcome = Inl e', attempts = attempt + 1, backoffs = slept, cache_write = None\<rparr>
                  else
                    get_loop hc url world (attempt + 1) (Some e') (slept @ [2 ^ attempt * 1000])))
      else
        \<lparr>outcome = Inl (case lastError of Some e \<Rightarrow> e
                         | None \<Rightarrow> new_SecEdgarApiError ''Max retries exceeded'' None),
         attempts = attempt, backoffs = slept, cache_write = None\<rparr>)"
  by pat_completeness auto
termination
  by (relation "measure (\<lambda>(hc, url, world, attempt, lastError, slept).
        nat (maxRetries hc + 1 - int attempt))") auto

declare get_loop.simps [simp del]

text \<open>
  \<open>get\<close>: \<open>cached\<close> is what the look-up in the request cache returns for the URL
  (\<open>None\<close> is \<open>null\<close>); the look-up happens only with a cache and without \<open>skipCache\<close>.
\<close>

definition HttpClient_get ::
  "HttpClient \<Rightarrow> string \<Rightarrow> bool \<Rightarrow> 'a option \<Rightarrow> (nat \<Rightarrow> 'a fetch_outcome) \<Rightarrow> 'a get_result" where
  "HttpClient_get hc url skipCache cached world =
     (case (if has_cache hc \<and> \<not> skipCache then cached else None) of
        Some body \<Rightarrow> \<lparr>outcome = Inr body, attempts = 0, backoffs = [], cache_write = None\<rparr>
      | None \<Rightarrow> get_loop hc url world 0 None [])"

text \<open>
  The failures the retry policy names. A fetch that rejects does so with a plain
  \<open>Error\<close> object of the runtime (the abort of the timeout, a DNS or connection failure,
  a reset socket), never with one of the toolkit's own error classes; a response is a
  named failure when its status is 429 or at least 500.
\<close>

definition retried_failure :: "'a fetch_outcome \<Rightarrow> bool" where
  "retried_failure oc =
     (case oc of
        Rejects e \<Rightarrow>
          cls e = Error_class \<or> name e = ''AbortError'' \<or> is_network_message (message e)
      | Responds status statusText body \<Rightarrow> status = 429 \<or> status \<ge> 500)"

text \<open>The sleeps of the retry loop before attempt \<open>n\<close>.\<close>

definition backoff_schedule :: "nat \<Rightarrow> int list" where
  "backoff_schedule n = map (\<lambda>j. 2 ^ j * 1000) [0..<n]"

definition default_client :: HttpClient where
  "default_client = HttpClient_new ''Demo/1.0 (demo@example.com)''
     \<lparr>maxRetries_opt = None, timeout_opt = None, cache_enabled = True\<rparr>"

text \<open>
  For the claims about the cache: the key and the value of one \<open>set\<close> call of a run, what a
  cache holds as key and value pairs in the order of its map, and the caches of the
  test suite.
\<close>

definition op_key :: "int \<times> string \<times> 'v \<times> int option \<Rightarrow> string" where
  "op_key op = fst (snd op)"

definition op_value :: "int \<times> string \<times> 'v \<times> int option \<Rightarrow> 'v" where
  "op_value op = fst (snd (snd op))"

definition contents :: "'v Cache \<Rightarrow> (string \<times> 'v) list" where
  "contents c = map (\<lambda>(k, e). (k, data e)) (cache c)"

definition test_options :: CacheOptions where
  "test_options = \<lparr>ttl_opt = Some 1000, maxSize_opt = Some 3, persistent_opt = None\<rparr>"

definition default_options :: CacheOptions where
  "default_options = \<lparr>ttl_opt = None, maxSize_opt = None, persistent_opt = None\<rparr>"

definition three_keys :: "nat Cache" where
  "three_keys = Cache_set_all
     [(10, ''key1'', 1, None), (20, ''key2'', 2, None), (30, ''key3'', 3, None)]
     (Cache_new test_options)"

section \<open>Regular expressions of the JavaScript runtime\<close>

text \<open>
  The parsers call the regular-expression engine of the runtime. The engine is a
  parameter of the model: a record of the four operations the parsers use, each taking
  the source text of the pattern, its flags and the subject string. Every theorem holds
  for every engine.

  \<^item> \<open>re_match\<close>: \<open>subject.match(regex)\<close> without the \<open>g\<close> flag, or one \<open>regex.exec(subject)\<close>:
    the index of the first match with the matched text and its groups, or nothing;
  \<^item> \<open>re_match_all\<close>: \<open>subject.matchAll(regex)\<close>, or the \<open>exec\<close> loop of a \<open>g\<close> regex: all
    matches in order;
  \<^item> \<open>re_replace\<close>: \<open>subject.replace(regex, replacement)\<close>;
  \<^item> \<open>re_split\<close>: \<open>subject.split(regex)\<close>.
\<close>

record regex_engine =
  re_match :: "string \<Rightarrow> string \<Rightarrow> string \<Rightarrow> (nat \<times> string list) option"
  re_match_all :: "string \<Rightarrow> string \<Rightarrow> string \<Rightarrow> (nat \<times> string list) list"
  re_replace :: "string \<Rightarrow> string \<Rightarrow> string \<Rightarrow> string \<Rightarrow> string"
  re_split :: "string \<Rightarrow> string \<Rightarrow> string \<Rightarrow> string list"

section \<open>FinancialFormParser (edgar.ts): ratios and risk factors\<close>

text \<open>
  A \<open>number\<close> that holds an amount or a ratio is a \<open>real\<close>: the rounding of the double
  arithmetic and its non-finite values are outside the model (\<open>parseNumber\<close> yields no
  \<open>NaN\<close>). A \<open>Date\<close> is its time value. \<open>IncomeStatementItem\<close> has the fields of
  \<open>BalanceSheetItem\<close>.
\<close>

record BalanceSheetItem =
  label :: string
  "value" :: real
  units :: string
  period :: string
  filed :: int




record Equity =
  totalEquity :: "BalanceSheetItem option"
  retainedEarnings :: "BalanceSheetItem option"

















record RiskFactor =
  category :: string
  description :: string
  severity :: string

text \<open>\<open>extractSection\<close>: from the first match of the pattern to the next \<open></DOCUMENT>\<close>, or
  50000 characters when there is none.\<close>

definition extractSection :: "regex_engine \<Rightarrow> string \<Rightarrow> string \<Rightarrow> string" where
  "extractSection eng rawContent pattern =
     (case re_match eng pattern ''i'' rawContent of
        None \<Rightarrow> []
      | Some (index, groups) \<Rightarrow>
          (let startIndex = int index;
               endIndex = indexOf rawContent ''</DOCUMENT>'' index
           in substring rawContent startIndex
                (if endIndex > 0 then endIndex else startIndex + 50000)))"

definition assessRiskSeverity :: "string \<Rightarrow> string" where
  "assessRiskSeverity riskText =
     (let highRiskKeywords = [''material adverse'', ''significant risk'', ''substantial risk'',
                              ''could result in''];
          mediumRiskKeywords = [''may affect'', ''potential impact'', ''could impact''];
          lowered = toLowerCase riskText
      in if list_ex (\<lambda>keyword. js_includes lowered keyword) highRiskKeywords then ''high''
         else if list_ex (\<lambda>keyword. js_includes lowered keyword) mediumRiskKeywords then ''medium''
         else ''low'')"

definition risk_categories :: "(string list \<times> string) list" where
  "risk_categories =
     [([''market'', ''competition'', ''customer''], ''Market Risk''),
      ([''regulation'', ''compliance'', ''legal''], ''Regulatory Risk''),
      ([''technology'', ''cyber'', ''security''], ''Technology Risk''),
      ([''financial'', ''credit'', ''liquidity''], ''Financial Risk''),
      ([''operational'', ''supply chain'', ''manufacturing''], ''Operational Risk'')]"

definition extractRiskCategory :: "string \<Rightarrow> string" where
  "extractRiskCategory riskText =
     (let lowered = toLowerCase riskText
      in case find (\<lambda>(keywords, cat). list_ex (\<lambda>keyword. js_includes lowered keyword) keywords)
                risk_categories of
           Some (keywords, cat) \<Rightarrow> cat
         | None \<Rightarrow> ''General Risk'')"

text \<open>
  A backslash cannot stand in a string literal, so the patterns that hold one are put
  together with \<open>backslash\<close>. The pattern that splits the risk section is
  \<open>(?=B|M|\d+\.|\n\n)\<close> with the bullet \<open>B\<close> and the middle dot \<open>M\<close>; the two characters
  are written here as the escapes u2022 and u00B7 of the pattern language, which denote
  them.
\<close>

definition backslash :: string where
  "backslash = [CHR 0x5C]"

definition risk_split_pattern :: string where
  "risk_split_pattern =
     ''(?='' @ backslash @ ''u2022|'' @ backslash @ ''u00B7|'' @ backslash @ ''d+'' @ backslash @
     ''.|'' @ backslash @ ''n'' @ backslash @ ''n)''"

definition getRiskFactors :: "regex_engine \<Rightarrow> string \<Rightarrow> RiskFactor list" where
  "getRiskFactors eng rawContent =
     (let riskSection = extractSection eng rawContent ''RISK FACTORS|ITEM 1A'';
          factors = filter (\<lambda>f. length (trim f) > 50)
                      (re_split eng risk_split_pattern [] riskSection);
          riskFactors = map (\<lambda>factor.
                          \<lparr>category = extractRiskCategory factor,
                           description = substring (trim factor) 0 500,
                           severity = assessRiskSeverity factor\<rparr>) factors
      in take 10 riskFactors)"

text \<open>
  A filing text to try the risk factors on, and what the engine of the runtime finds in
  it: the section pattern matches at index 0, and the split pattern cuts before each of
  the two blank lines.
\<close>

definition blank_line :: string where
  "blank_line = [CHR 0x0A, CHR 0x0A]"

definition sample_risk_filing :: string where
  "sample_risk_filing =
     ''RISK FACTORS'' @ blank_line @
     ''Competition in our market could result in lower prices and a material adverse effect'' @
     blank_line @
     ''We depend on a small number of suppliers and an interruption may affect our production''"

definition risk_engine :: regex_engine where
  "risk_engine =
     \<lparr>re_match = (\<lambda>pattern flags subject.
         if pattern = ''RISK FACTORS|ITEM 1A'' \<and> subject = sample_risk_filing
         then Some (0, [''RISK FACTORS'']) else None),
      re_match_all = (\<lambda>pattern flags subject. []),
      re_replace = (\<lambda>pattern flags replacement subject. subject),
      re_split = (\<lambda>pattern flags subject.
         if pattern = risk_split_pattern \<and> subject = sample_risk_filing
         then [''RISK FACTORS'',
               blank_line @ ''Competition in our market could result in lower prices and a material adverse effect'',
               blank_line @ ''We depend on a small number of suppliers and an interruption may affect our production'']
         else [subject])\<rparr>"

section \<open>Values of the JavaScript runtime\<close>

text \<open>
  The values that the XML parser returns and that \<open>JSON.stringify\<close> prints: \<open>undefined\<close>,
  \<open>null\<close>, booleans, integral numbers, strings, arrays, and plain objects as the list of
  their own enumerable properties in the order in which the runtime enumerates them.
\<close>

datatype jsval =
    JUndefined
  | JNull
  | JBool bool
  | JNum int
  | JStr string
  | JArr "jsval list"
  | JObj "(string \<times> jsval) list"






section \<open>OwnershipFormParser (parsers/ownership-forms.ts)\<close>




record OwnershipFormParser =
  xmlContent :: string
  xml_root :: jsval
  formType :: string




section \<open>Plain objects used as dictionaries\<close>

text \<open>
  A \<open>Record<string, string>\<close> that starts as the literal \<open>{}\<close> is a plain object: the list
  of its own properties, with \<open>Object.prototype\<close> behind it. A property of the object
  holds a string; what a read finds on the prototype is a built-in member instead.
\<close>

datatype member =
    Content string
  | Inherited string

type_synonym dictionary = "(string \<times> member) list"

definition Object_prototype_keys :: "string list" where
  "Object_prototype_keys =
     [''constructor'', ''__defineGetter__'', ''__defineSetter__'', ''hasOwnProperty'',
      ''__lookupGetter__'', ''__lookupSetter__'', ''isPrototypeOf'', ''propertyIsEnumerable'',
      ''toString'', ''valueOf'', ''__proto__'', ''toLocaleString'']"

text \<open>\<open>key in obj\<close> looks at the own properties and then along the prototype chain.\<close>

definition js_in :: "string \<Rightarrow> dictionary \<Rightarrow> bool" where
  "js_in key obj = (key \<in> set (map fst obj) \<or> key \<in> set Object_prototype_keys)"

text \<open>\<open>obj[key]\<close>: the own property, else the member of the prototype, else \<open>undefined\<close>
  (\<open>None\<close>).\<close>

definition dict_read :: "dictionary \<Rightarrow> string \<Rightarrow> member option" where
  "dict_read obj key =
     (case map_of obj key of
        Some v \<Rightarrow> Some v
      | None \<Rightarrow> if key \<in> set Object_prototype_keys then Some (Inherited key) else None)"

text \<open>
  \<open>obj[key] = v\<close>: an own property is set or added at the end. The key \<open>__proto__\<close> is the
  setter of the prototype: it adds no property, and for the values assigned here (a
  string, or \<open>Object.prototype\<close> itself) it leaves the object as it is.
\<close>

definition dict_assign :: "dictionary \<Rightarrow> string \<Rightarrow> member \<Rightarrow> dictionary" where
  "dict_assign obj key v = (if key = ''__proto__'' then obj else AList.update key v obj)"

section \<open>ItemExtractor (parsers/item-extractor.ts)\<close>

datatype FormType = FORM_10K | FORM_10Q | FORM_8K | FORM_20F | FORM_40F

record ItemDefinition =
  number :: string
  title :: string
  aliases :: "string list option"
  required :: "bool option"

text \<open>The \<open>title\<close> of an extracted item is the field \<open>itemTitle\<close> here.\<close>

record ExtractedItem =
  itemNumber :: string
  itemTitle :: string
  content :: string
  startPosition :: nat
  endPosition :: nat

definition item :: "string \<Rightarrow> string \<Rightarrow> ItemDefinition" where
  "item n t = \<lparr>number = n, title = t, aliases = None, required = None\<rparr>"

definition FORM_10K_ITEMS :: "ItemDefinition list" where
  "FORM_10K_ITEMS =
     [item ''1'' ''Business'',
      item ''1A'' ''Risk Factors'',
      item ''1B'' ''Unresolved Staff Comments'',
      (item ''1C'' ''Cybersecurity'')\<lparr>required := Some False\<rparr>,
      item ''2'' ''Properties'',
      item ''3'' ''Legal Proceedings'',
      (item ''4'' ''Mine Safety Disclosures'')\<lparr>required := Some False\<rparr>,
      item ''5'' (''Market for Registrant'' @ [CHR 0x27] @ ''s Common Equity''),
      (item ''6'' ''Reserved'')\<lparr>required := Some False\<rparr>,
      (item ''7'' (''Management'' @ [CHR 0x27] @ ''s Discussion and Analysis''))\<lparr>aliases := Some [''MD&A'']\<rparr>,
      item ''7A'' ''Quantitative and Qualitative Disclosures About Market Risk'',
      item ''8'' ''Financial Statements and Supplementary Data'',
      item ''9'' ''Changes in and Disagreements with Accountants'',
      item ''9A'' ''Controls and Procedures'',
      item ''9B'' ''Other Information'',
      (item ''9C'' ''Disclosure Regarding Foreign Jurisdictions'')\<lparr>required := Some False\<rparr>,
      item ''10'' ''Directors, Executive Officers and Corporate Governance'',
      item ''11'' ''Executive Compensation'',
      item ''12'' ''Security Ownership'',
      item ''13'' ''Certain Relationships and Related Transactions'',
      item ''14'' ''Principal Accountant Fees and Services'',
      item ''15'' ''Exhibits and Financial Statement Schedules'']"

definition FORM_10Q_ITEMS :: "ItemDefinition list" where
  "FORM_10Q_ITEMS =
     [item ''1'' ''Financial Statements'',
      (item ''2'' (''Management'' @ [CHR 0x27] @ ''s Discussion and Analysis''))\<lparr>aliases := Some [''MD&A'']\<rparr>,
      item ''3'' ''Quantitative and Qualitative Disclosures About Market Risk'',
      item ''4'' ''Controls and Procedures'',
      (item ''1'' ''Legal Proceedings'')\<lparr>aliases := Some [''Part II, Item 1'']\<rparr>,
      (item ''1A'' ''Risk Factors'')\<lparr>aliases := Some [''Part II, Item 1A'']\<rparr>,
      (item ''2'' ''Unregistered Sales of Equity Securities'')\<lparr>aliases := Some [''Part II, Item 2'']\<rparr>,
      (item ''3'' ''Defaults Upon Senior Securities'')\<lparr>aliases := Some [''Part II, Item 3'']\<rparr>,
      (item ''4'' ''Mine Safety Disclosures'')
        \<lparr>aliases := Some [''Part II, Item 4''], required := Some False\<rparr>,
      (item ''5'' ''Other Information'')\<lparr>aliases := Some [''Part II, Item 5'']\<rparr>,
      (item ''6'' ''Exhibits'')\<lparr>aliases := Some [''Part II, Item 6'']\<rparr>]"

definition FORM_8K_ITEMS :: "ItemDefinition list" where
  "FORM_8K_ITEMS =
     [item ''1.01'' ''Entry into a Material Definitive Agreement'',
      item ''1.02'' ''Termination of a Material Definitive Agreement'',
      item ''2.01'' ''Completion of Acquisition or Disposition of Assets'',
      item ''2.02'' ''Results of Operations and Financial Condition'',
      item ''2.03'' ''Creation of a Direct Financial Obligation'',
      item ''3.01'' ''Notice of Delisting or Failure to Satisfy'',
      item ''3.02'' ''Unregistered Sales of Equity Securities'',
      item ''4.01'' (''Changes in Registrant'' @ [CHR 0x27] @ ''s Certifying Accountant''),
      item ''4.02'' ''Non-Reliance on Previously Issued Financial Statements'',
      item ''5.01'' ''Changes in Control of Registrant'',
      item ''5.02'' ''Departure of Directors or Certain Officers'',
      item ''5.03'' ''Amendments to Articles of Incorporation or Bylaws'',
      item ''7.01'' ''Regulation FD Disclosure'',
      item ''8.01'' ''Other Events'',
      item ''9.01'' ''Financial Statements and Exhibits'']"

text \<open>The map \<open>formItems\<close> that the constructor fills.\<close>

fun formItems :: "FormType \<Rightarrow> ItemDefinition list option" where
  "formItems FORM_10K = Some FORM_10K_ITEMS"
| "formItems FORM_10Q = Some FORM_10Q_ITEMS"
| "formItems FORM_8K = Some FORM_8K_ITEMS"
| "formItems FORM_20F = None"
| "formItems FORM_40F = None"

definition supported_form_types :: "string list" where
  "supported_form_types = [''10-K'', ''10-Q'', ''8-K'', ''20-F'', ''40-F'']"

definition parseFormType :: "string \<Rightarrow> error + FormType" where
  "parseFormType formTypeStr =
     (let upperType = toUpperCase formTypeStr
      in if js_includes upperType ''10-K'' \<or> js_includes upperType ''10K'' then Inr FORM_10K
         else if js_includes upperType ''10-Q'' \<or> js_includes upperType ''10Q'' then Inr FORM_10Q
         else if js_includes upperType ''8-K'' \<or> js_includes upperType ''8K'' then Inr FORM_8K
         else if js_includes upperType ''20-F'' \<or> js_includes upperType ''20F'' then Inr FORM_20F
         else if js_includes upperType ''40-F'' \<or> js_includes upperType ''40F'' then Inr FORM_40F
         else Inl (new_InvalidFormTypeError formTypeStr (Some supported_form_types)))"

text \<open>\<open>escapeRegex\<close>: a backslash before each of the characters \<open>. * + ? ^ $ { } ( ) | [ ]\<close>
  and the backslash.\<close>

definition escapeRegex :: "string \<Rightarrow> string" where
  "escapeRegex str =
     concat (map (\<lambda>c. if c \<in> set ''.*+?^${}()|[]'' \<or> c = CHR 0x5C then [CHR 0x5C, c] else [c]) str)"

definition cleanContent :: "regex_engine \<Rightarrow> string \<Rightarrow> string" where
  "cleanContent eng text0 =
     (let cleaned1 = re_replace eng ''<[^>]+>'' ''g'' '' '' text0;
          cleaned2 = re_replace eng (backslash @ ''s+'') ''g'' '' '' cleaned1;
          cleaned3 = re_replace eng
                       (''(Item'' @ backslash @ ''s+'' @ backslash @ ''d+[A-Z]?'' @ backslash @ ''.)'')
                       ''gi'' (blank_line @ ''$1'') cleaned2
      in trim cleaned3)"

text \<open>Group \<open>n\<close> of a match; a group that is not there reads as the empty string.\<close>

definition match_group :: "string list \<Rightarrow> nat \<Rightarrow> string" where
  "match_group groups n = (if n < length groups then groups ! n else [])"

definition toc_pattern :: string where
  "toc_pattern =
     ''TABLE'' @ backslash @ ''s+OF'' @ backslash @ ''s+CONTENTS(.*?)(?:Item'' @ backslash @
     ''s+1'' @ backslash @ ''.|PART'' @ backslash @ ''s+I'' @ backslash @ ''s)''"

definition toc_item_pattern :: string where
  "toc_item_pattern =
     ''Item'' @ backslash @ ''s+('' @ backslash @ ''d+[A-Z]?)'' @ backslash @ ''.'' @ backslash @
     ''s*([^'' @ backslash @ ''n'' @ backslash @ ''r.]+)''"

definition extractTableOfContents :: "regex_engine \<Rightarrow> string \<Rightarrow> (string \<times> nat) list" where
  "extractTableOfContents eng text0 =
     (case re_match eng toc_pattern ''is'' text0 of
        None \<Rightarrow> []
      | Some (index, groups) \<Rightarrow>
          (let tocContent = match_group groups 1
           in map (\<lambda>(i, gs). (toUpperCase (match_group gs 1), i))
                (re_match_all eng toc_item_pattern ''gi'' tocContent)))"

text \<open>\<open>Math.max(...positions)\<close> of a list that is not empty.\<close>

definition isInToc :: "nat \<Rightarrow> (string \<times> nat) list \<Rightarrow> bool" where
  "isInToc position tocItems =
     (if tocItems = [] then False
      else (let lastTocPos = fold max (map snd tocItems) 0
            in position < lastTocPos + 500))"

definition next_item_pattern :: string where
  "next_item_pattern =
     ''Item'' @ backslash @ ''s+'' @ backslash @ ''d+[A-Z]?[.:]'' @ backslash @ ''s*[A-Z]''"

definition findItemEnd :: "regex_engine \<Rightarrow> string \<Rightarrow> nat \<Rightarrow> nat" where
  "findItemEnd eng text0 startPos =
     (let remainingContent = drop (startPos + 10) text0
      in case re_match eng next_item_pattern ''i'' remainingContent of
           Some (index, groups) \<Rightarrow> startPos + 10 + index
         | None \<Rightarrow> length text0)"

definition item_patterns :: "ItemDefinition \<Rightarrow> string list" where
  "item_patterns itemDef =
     [''Item'' @ backslash @ ''s+'' @ escapeRegex (number itemDef) @ backslash @ ''.'' @ backslash @
        ''s*'' @ escapeRegex (title itemDef),
      ''Item'' @ backslash @ ''s+'' @ escapeRegex (number itemDef) @ backslash @ ''.'' @ backslash @
        ''s*(?=[A-Z])'',
      ''Item'' @ backslash @ ''s+'' @ escapeRegex (number itemDef) @ ''(?:'' @ backslash @ ''.|:|'' @
        backslash @ ''s)''] @
     (case aliases itemDef of None \<Rightarrow> [] | Some als \<Rightarrow> map escapeRegex als)"

text \<open>The match to use: the first one, or, with a table of contents and more than one
  match, the first later match that is not inside the table of contents.\<close>

definition choose_match :: "(nat \<times> string list) list \<Rightarrow> (string \<times> nat) list \<Rightarrow> nat \<times> string list" where
  "choose_match matches tocItems =
     (if length matches > 1 \<and> tocItems \<noteq> [] then
        (case find (\<lambda>(i, gs). \<not> isInToc i tocItems) (tl matches) of
           Some m \<Rightarrow> m
         | None \<Rightarrow> hd matches)
      else hd matches)"

text \<open>The loop over the patterns of one item: the first pattern with a match decides.\<close>

fun try_patterns ::
  "regex_engine \<Rightarrow> string \<Rightarrow> (string \<times> nat) list \<Rightarrow> ItemDefinition \<Rightarrow> string list
     \<Rightarrow> ExtractedItem option" where
  "try_patterns eng text0 tocItems itemDef [] = None"
| "try_patterns eng text0 tocItems itemDef (pattern # patterns) =
     (let matches = re_match_all eng pattern ''gi'' text0
      in if length matches > 0 then
           (let startPos = fst (choose_match matches tocItems);
                endPos = findItemEnd eng text0 startPos;
                itemContent = trim (substring text0 (int startPos) (int endPos))
            in Some \<lparr>itemNumber = number itemDef, itemTitle = title itemDef,
                     content = itemContent, startPosition = startPos, endPosition = endPos\<rparr>)
         else try_patterns eng text0 tocItems itemDef patterns)"

text \<open>The body of the loop over the item definitions, and the loop.\<close>

definition extract_step ::
  "regex_engine \<Rightarrow> string \<Rightarrow> (string \<times> nat) list \<Rightarrow> (string \<times> ExtractedItem) list
     \<Rightarrow> ItemDefinition \<Rightarrow> (string \<times> ExtractedItem) list" where
  "extract_step eng text0 tocItems items itemDef =
     (case try_patterns eng text0 tocItems itemDef (item_patterns itemDef) of
        Some extracted \<Rightarrow> AList.update (number itemDef) extracted items
      | None \<Rightarrow> items)"

definition extractItemsFromContent ::
  "regex_engine \<Rightarrow> string \<Rightarrow> FormType \<Rightarrow> (string \<times> nat) list \<Rightarrow> (string \<times> ExtractedItem) list" where
  "extractItemsFromContent eng text0 form_type tocItems =
     (let itemDefinitions = (case formItems form_type of Some defs \<Rightarrow> defs | None \<Rightarrow> [])
      in foldl (extract_step eng text0 tocItems) [] itemDefinitions)"

definition excess_blank_pattern :: string where
  "excess_blank_pattern =
     backslash @ ''n'' @ backslash @ ''s*'' @ backslash @ ''n'' @ backslash @ ''s*'' @ backslash @ ''n''"

text \<open>The body of the loop of \<open>postProcessItems\<close>, and the loop.\<close>

definition postProcess_step :: "regex_engine \<Rightarrow> dictionary \<Rightarrow> string \<times> ExtractedItem \<Rightarrow> dictionary" where
  "postProcess_step eng processed entry =
     (let itemNum = fst entry;
          cleaned = re_replace eng excess_blank_pattern ''g'' blank_line (content (snd entry))
      in if length (trim cleaned) > 50 then dict_assign processed itemNum (Content cleaned)
         else if js_includes (toLowerCase cleaned) ''none'' \<or>
                 js_includes (toLowerCase cleaned) ''not applicable''
              then dict_assign processed itemNum (Content cleaned)
              else dict_assign processed itemNum (Content []))"

definition postProcessItems :: "regex_engine \<Rightarrow> (string \<times> ExtractedItem) list \<Rightarrow> dictionary" where
  "postProcessItems eng items = foldl (postProcess_step eng) [] items"

text \<open>
  \<open>extractItems\<close>. A \<open>FormType\<close> is a string at run time, so the form type always goes
  through \<open>parseFormType\<close>.
\<close>

definition extractItems :: "regex_engine \<Rightarrow> string \<Rightarrow> string \<Rightarrow> error + dictionary" where
  "extractItems eng text0 form_type =
     (case parseFormType form_type of
        Inl e \<Rightarrow> Inl e
      | Inr parsedFormType \<Rightarrow>
          if formItems parsedFormType = None
          then Inl (new_InvalidFormTypeError form_type (Some supported_form_types))
          else (let cleaned = cleanContent eng text0;
                    tocItems = extractTableOfContents eng cleaned;
                    items = extractItemsFromContent eng cleaned parsedFormType tocItems
                in Inr (postProcessItems eng items)))"

text \<open>The body of the loop of \<open>extractSpecificItems\<close>.\<close>

definition specific_step :: "dictionary \<Rightarrow> dictionary \<Rightarrow> string \<Rightarrow> dictionary" where
  "specific_step allItems result itemNum =
     (if js_in itemNum allItems then
        (case dict_read allItems itemNum of
           Some v \<Rightarrow> dict_assign result itemNum v
         | None \<Rightarrow> result)
      else result)"

definition extractSpecificItems ::
  "regex_engine \<Rightarrow> string \<Rightarrow> string \<Rightarrow> string list \<Rightarrow> error + dictionary" where
  "extractSpecificItems eng text0 form_type itemNumbers =
     (case extractItems eng text0 form_type of
        Inl e \<Rightarrow> Inl e
      | Inr allItems \<Rightarrow> Inr (foldl (specific_step allItems) [] itemNumbers))"

text \<open>
  A filing text to try the extractor on, and what the engine of the runtime finds in it:
  the heading pattern of \<open>cleanContent\<close> puts a blank line before \<open>Item 1.\<close>, the first
  pattern of item 1 of the 10-K registry matches at index 0, and no other pattern of the
  extractor matches anywhere.
\<close>

definition sample_filing :: string where
  "sample_filing =
     ''Item 1. Business We design and sell widgets to customers around the world every year.''"

text \<open>The replacement \<open>\\n\\n$1\<close> without its reference to the group.\<close>

definition replacement_prefix :: "string \<Rightarrow> string" where
  "replacement_prefix replacement = take (length replacement - 2) replacement"

definition item_engine :: regex_engine where
  "item_engine =
     \<lparr>re_match = (\<lambda>pattern flags subject. None),
      re_match_all = (\<lambda>pattern flags subject.
         if pattern = ''Item'' @ backslash @ ''s+1'' @ backslash @ ''.'' @ backslash @ ''s*Business'' \<and>
            subject = sample_filing
         then [(0, [''Item 1. Business''])] else []),
      re_replace = (\<lambda>pattern flags replacement subject.
         if pattern = ''(Item'' @ backslash @ ''s+'' @ backslash @ ''d+[A-Z]?'' @ backslash @ ''.)'' \<and>
            subject = sample_filing
         then replacement_prefix replacement @ subject else subject),
      re_split = (\<lambda>pattern flags subject. [subject])\<rparr>"

chapter \<open>Verification\<close>

section \<open>Cache: well-formedness is kept\<close>

lemma cache_wf_new: "cache_wf (Cache_new opts)"
  by (simp add: cache_wf_def Cache_new_def)

lemma keys_delete: "fst ` set (AList.delete key m) = fst ` set m - {key}"
  by (induction m) auto

lemma cache_wf_delete: "cache_wf c \<Longrightarrow> cache_wf (snd (Cache_delete key c))"
  by (simp add: cache_wf_def Cache_delete_def removeFromAccessOrder_def Let_def
      distinct_delete keys_delete)

lemma cache_wf_evictLRU: "cache_wf c \<Longrightarrow> cache_wf (evictLRU c)"
  by (auto simp: evictLRU_def cache_wf_delete split: list.splits)

lemma cache_wf_updateAccessOrder:
  assumes "distinct (map fst (cache c))" "distinct (accessOrder c)"
    and "insert key (set (accessOrder c)) = fst ` set (cache c)"
  shows "cache_wf (updateAccessOrder key c)"
  using assms
  by (auto simp: cache_wf_def updateAccessOrder_def removeFromAccessOrder_def Let_def)

lemma cache_wf_set: "cache_wf c \<Longrightarrow> cache_wf (Cache_set now key d ttl_arg c)"
proof -
  assume wf: "cache_wf c"
  define c1 where "c1 = (if int (length (cache c)) \<ge> maxSize (options c) \<and> \<not> Map_has (cache c) key
                then evictLRU c else c)"
  have wf1: "cache_wf c1"
    using wf by (simp add: c1_def cache_wf_evictLRU)
  show ?thesis
    unfolding Cache_set_def Let_def c1_def [symmetric]
    by (rule cache_wf_updateAccessOrder)
      (use wf1 in \<open>auto simp: cache_wf_def distinct_update dom_update\<close>)
qed

lemma cache_wf_get: "cache_wf c \<Longrightarrow> cache_wf (snd (Cache_get now key c))"
proof (cases "map_of (cache c) key")
  case None
  assume "cache_wf c"
  then show ?thesis using None by (simp add: Cache_get_def cache_wf_def)
next
  case (Some entry)
  assume wf: "cache_wf c"
  have key: "key \<in> fst ` set (cache c)"
    using Some by (metis domI dom_map_of_conv_image_fst)
  show ?thesis
  proof (cases "is_expired now entry")
    case True
    then show ?thesis using wf Some
      by (simp add: Cache_get_def cache_wf_def removeFromAccessOrder_def Let_def
          distinct_delete keys_delete)
  next
    case False
    have "cache_wf (updateAccessOrder key c)"
      by (rule cache_wf_updateAccessOrder) (use wf key in \<open>auto simp: cache_wf_def\<close>)
    then show ?thesis using False Some
      by (simp add: Cache_get_def Let_def cache_wf_def)
  qed
qed

lemma cache_wf_has: "cache_wf c \<Longrightarrow> cache_wf (snd (Cache_has now key c))"
  by (auto simp: Cache_has_def cache_wf_delete split: option.splits)

lemma cache_wf_clear: "cache_wf (Cache_clear c)"
  by (simp add: cache_wf_def Cache_clear_def)

section \<open>HttpClient: retries and back-off\<close>

lemma instanceof_Error: "instanceof e Error_class"
  by (cases "cls e") (simp_all add: instanceof_def subclass_of_def)

lemma statusCode_handleHttpError [simp]:
  "statusCode (handleHttpError status statusText url) = Some status"
  by (simp add: handleHttpError_def new_RateLimitError_def new_RequestError_def
      new_AuthenticationError_def new_NotFoundError_def)

lemma catch_block_Keep:
  assumes "\<And>sc. statusCode e = Some sc \<Longrightarrow> \<not> (sc \<noteq> 0 \<and> sc \<ge> 400 \<and> sc < 500 \<and> sc \<noteq> 429)"
  shows "\<exists>e'. catch_block hc url e = Keep e'"
proof (cases "statusCode e")
  case None
  then show ?thesis by (simp add: catch_block_def)
next
  case (Some sc)
  then have "\<not> (sc \<noteq> 0 \<and> sc \<ge> 400 \<and> sc < 500 \<and> sc \<noteq> 429)"
    using assms by blast
  then show ?thesis using Some by (auto simp: catch_block_def)
qed

lemma catch_block_Keep_abort:
  "name e = ''AbortError'' \<or> is_network_message (message e) \<Longrightarrow>
   \<exists>e'. catch_block hc url e = Keep e'"
  by (auto simp: catch_block_def instanceof_Error)

lemma catch_block_Keep_plain:
  assumes "cls e = Error_class"
  shows "\<exists>e'. catch_block hc url e = Keep e'"
proof -
  have "\<not> instanceof e SecEdgarApiError_class"
    using assms by (simp add: instanceof_def subclass_of_def)
  then show ?thesis by (simp add: catch_block_def)
qed

lemma retried_failure_kept:
  assumes "retried_failure oc"
  shows "\<exists>e e'. try_body url oc = Inl e \<and> catch_block hc url e = Keep e'"
proof (cases oc)
  case (Rejects e)
  then have "cls e = Error_class \<or> name e = ''AbortError'' \<or> is_network_message (message e)"
    using assms by (simp add: retried_failure_def)
  then have "\<exists>e'. catch_block hc url e = Keep e'"
    using catch_block_Keep_abort [of e hc url] catch_block_Keep_plain [of e hc url] by blast
  then show ?thesis
    using Rejects by (simp add: try_body_def)
next
  case (Responds status statusText body)
  then have st: "status = 429 \<or> status \<ge> 500"
    using assms by (simp add: retried_failure_def)
  have nok: "\<not> (200 \<le> status \<and> status \<le> 299)" using st by arith
  have "\<exists>e'. catch_block hc url (handleHttpError status statusText url) = Keep e'"
  proof (rule catch_block_Keep)
    fix sc
    assume "statusCode (handleHttpError status statusText url) = Some sc"
    then have "sc = status" by simp
    then show "\<not> (sc \<noteq> 0 \<and> sc \<ge> 400 \<and> sc < 500 \<and> sc \<noteq> 429)"
      using st by arith
  qed
  then show ?thesis using Responds nok by (simp add: try_body_def)
qed

lemma get_loop_step:
  assumes "retried_failure (world i)" "int i < maxRetries hc"
  shows "\<exists>l. get_loop hc url world i lst slept =
              get_loop hc url world (Suc i) l (slept @ [2 ^ i * 1000])"
proof -
  obtain e e' where "try_body url (world i) = Inl e" "catch_block hc url e = Keep e'"
    using retried_failure_kept [OF assms(1)] by blast
  then show ?thesis using assms(2)
    by (subst get_loop.simps) auto
qed

lemma get_loop_skip:
  assumes "\<forall>j. i \<le> j \<and> j < k \<longrightarrow> retried_failure (world j)" "int k \<le> maxRetries hc" "i \<le> k"
  shows "\<exists>l. get_loop hc url world i lst slept =
              get_loop hc url world k l (slept @ map (\<lambda>j. 2 ^ j * 1000) [i..<k])"
  using assms(3,1,2)
proof (induction k rule: dec_induct)
  case base
  then show ?case by auto
next
  case (step n)
  then obtain l where l: "get_loop hc url world i lst slept =
      get_loop hc url world n l (slept @ map (\<lambda>j. 2 ^ j * 1000) [i..<n])"
    by force
  have "retried_failure (world n)" "int n < maxRetries hc"
    using step by auto
  then obtain l' where
    "get_loop hc url world n l (slept @ map (\<lambda>j. 2 ^ j * 1000) [i..<n]) =
     get_loop hc url world (Suc n) l' ((slept @ map (\<lambda>j. 2 ^ j * 1000) [i..<n]) @ [2 ^ n * 1000])"
    using get_loop_step [of world n hc url l "slept @ map (\<lambda>j. 2 ^ j * 1000) [i..<n]"] by blast
  then show ?case using l step.hyps by auto
qed

lemma get_loop_exhausted:
  assumes "retried_failure (world k)" "int k = maxRetries hc"
  shows "attempts (get_loop hc url world k l slept) = k + 1 \<and>
         backoffs (get_loop hc url world k l slept) = slept \<and>
         isl (outcome (get_loop hc url world k l slept))"
proof -
  obtain e e' where "try_body url (world k) = Inl e" "catch_block hc url e = Keep e'"
    using retried_failure_kept [OF assms(1)] by blast
  then show ?thesis using assms(2)
    by (subst get_loop.simps, subst get_loop.simps, subst get_loop.simps) auto
qed

lemma instanceof_handleHttpError:
  "instanceof (handleHttpError status statusText url) SecEdgarApiError_class"
  by (simp add: handleHttpError_def new_RateLimitError_def new_RequestError_def
      new_AuthenticationError_def new_NotFoundError_def instanceof_def subclass_of_def)

lemma name_handleHttpError:
  "name (handleHttpError status statusText url) \<noteq> ''AbortError''"
  by (simp add: handleHttpError_def new_RateLimitError_def new_RequestError_def
      new_AuthenticationError_def new_NotFoundError_def)

lemma catch_block_client_error:
  assumes "400 \<le> s" "s < 500" "s \<noteq> 429"
    "\<not> is_network_message (message (handleHttpError s stext url))"
  shows "catch_block hc url (handleHttpError s stext url) = Rethrow (handleHttpError s stext url)"
proof -
  have "s \<noteq> 0 \<and> s \<ge> 400 \<and> s < 500 \<and> s \<noteq> 429" using assms(1-3) by arith
  then show ?thesis
    using assms(4)
    by (simp add: catch_block_def instanceof_handleHttpError name_handleHttpError)
qed

lemma get_loop_client_error:
  assumes "world i = Responds s stext body" "400 \<le> s" "s < 500" "s \<noteq> 429"
    "\<not> is_network_message (message (handleHttpError s stext url))" "int i \<le> maxRetries hc"
  shows "get_loop hc url world i l slept =
         \<lparr>outcome = Inl (handleHttpError s stext url), attempts = i + 1, backoffs = slept,
          cache_write = None\<rparr>"
proof -
  have "try_body url (world i) = Inl (handleHttpError s stext url)"
    using assms(1-3) by (simp add: try_body_def)
  then show ?thesis
    using catch_block_client_error [OF assms(2-5), of hc] assms(6)
    by (subst get_loop.simps) simp
qed

lemma get_loop_attempts_le:
  "attempts (get_loop hc url world i l slept) \<le> max i (nat (maxRetries hc + 1))"
proof (induction hc url world i l slept rule: get_loop.induct)
  case (1 hc url world attempt lastError slept)
  show ?case
  proof (cases "int attempt \<le> maxRetries hc")
    case False
    then show ?thesis by (subst get_loop.simps) simp
  next
    case le: True
    then have here: "attempt + 1 \<le> max attempt (nat (maxRetries hc + 1))" by simp
    show ?thesis
    proof (cases "try_body url (world attempt)")
      case (Inr body)
      then show ?thesis using le here by (subst get_loop.simps) simp
    next
      case (Inl e)
      show ?thesis
      proof (cases "catch_block hc url e")
        case (Rethrow e')
        then show ?thesis using le Inl here by (subst get_loop.simps) simp
      next
        case (Keep e')
        show ?thesis
        proof (cases "int attempt = maxRetries hc")
          case True
          then show ?thesis using le Inl Keep here by (subst get_loop.simps) simp
        next
          case False
          have "attempts (get_loop hc url world (attempt + 1) (Some e') (slept @ [2 ^ attempt * 1000]))
                \<le> max (attempt + 1) (nat (maxRetries hc + 1))"
            by (rule 1 [OF le Inl Keep False])
          also have "\<dots> \<le> max attempt (nat (maxRetries hc + 1))" using le by simp
          finally show ?thesis using le Inl Keep False
            by (subst get_loop.simps) simp
        qed
      qed
    qed
  qed
qed

lemma HttpClient_get_attempts_le:
  "attempts (HttpClient_get hc url skipCache cached world) \<le> nat (maxRetries hc + 1)"
proof (cases "if has_cache hc \<and> \<not> skipCache then cached else None")
  case (Some body)
  then show ?thesis by (simp add: HttpClient_get_def)
next
  case None
  then show ?thesis
    using get_loop_attempts_le [of hc url world 0 None "[]"] by (simp add: HttpClient_get_def)
qed

text \<open>
  Claim C1, as the code has it. Whatever the attempts meet, \<open>get\<close> never makes more than
  \<open>maxRetries + 1\<close> of them. When \<open>get\<close> does not answer from the cache:
  if every attempt up to the configured maximum meets a rate-limit response (429), a
  rejected fetch (the abort of the timeout, or any transport failure: DNS, connection
  refused or reset, and the like) or a 5xx response, then \<open>get\<close> makes exactly
  \<open>maxRetries + 1\<close> attempts, sleeping \<open>2^j * 1000\<close> ms after attempt \<open>j\<close>, and fails;
  and a response with any 4xx status other than 429 (408 included), whose error message
  carries none of the transport markers, is thrown at once: the attempt that meets it is
  the last one.
\<close>

theorem HttpClient_get_retry_policy:
  "attempts (HttpClient_get hc url skipCache cached w) \<le> nat (maxRetries hc + 1) \<and>
   ((\<not> has_cache hc \<or> skipCache \<or> cached = None) \<longrightarrow>
   ((0 \<le> maxRetries hc \<and> (\<forall>j \<le> nat (maxRetries hc). retried_failure (world j)) \<longrightarrow>
       attempts (HttpClient_get hc url skipCache cached world) = nat (maxRetries hc) + 1 \<and>
       backoffs (HttpClient_get hc url skipCache cached world) = backoff_schedule (nat (maxRetries hc)) \<and>
       isl (outcome (HttpClient_get hc url skipCache cached world))) \<and>
    (int i \<le> maxRetries hc \<and> (\<forall>j < i. retried_failure (world j)) \<and>
     world i = Responds s stext body \<and> 400 \<le> s \<and> s < 500 \<and> s \<noteq> 429 \<and>
     \<not> is_network_message (message (handleHttpError s stext url)) \<longrightarrow>
       HttpClient_get hc url skipCache cached world =
         \<lparr>outcome = Inl (handleHttpError s stext url), attempts = i + 1,
          backoffs = backoff_schedule i, cache_write = None\<rparr>)))"
proof (intro impI conjI)
  show "attempts (HttpClient_get hc url skipCache cached w) \<le> nat (maxRetries hc + 1)"
    by (rule HttpClient_get_attempts_le)
next
  assume miss: "\<not> has_cache hc \<or> skipCache \<or> cached = None"
  have get: "HttpClient_get hc url skipCache cached world = get_loop hc url world 0 None []"
    using miss by (auto simp: HttpClient_get_def)
  {
    assume h: "0 \<le> maxRetries hc \<and> (\<forall>j \<le> nat (maxRetries hc). retried_failure (world j))"
    define k where "k = nat (maxRetries hc)"
    have k: "int k = maxRetries hc" using h by (simp add: k_def)
    obtain l where l: "get_loop hc url world 0 None [] =
        get_loop hc url world k l ([] @ map (\<lambda>j. 2 ^ j * 1000) [0..<k])"
      using get_loop_skip [of 0 k world hc url None "[]"] h k by (auto simp: k_def)
    have lastk: "retried_failure (world k)" using h by (simp add: k_def)
    have ex: "attempts (get_loop hc url world k l (map (\<lambda>j. 2 ^ j * 1000) [0..<k])) = k + 1 \<and>
         backoffs (get_loop hc url world k l (map (\<lambda>j. 2 ^ j * 1000) [0..<k])) = map (\<lambda>j. 2 ^ j * 1000) [0..<k] \<and>
         isl (outcome (get_loop hc url world k l (map (\<lambda>j. 2 ^ j * 1000) [0..<k])))"
      using get_loop_exhausted [of world k hc url l "map (\<lambda>j. 2 ^ j * 1000) [0..<k]"] lastk k
      by blast
    show "attempts (HttpClient_get hc url skipCache cached world) = nat (maxRetries hc) + 1"
      using ex l get by (simp add: k_def)
    show "backoffs (HttpClient_get hc url skipCache cached world) = backoff_schedule (nat (maxRetries hc))"
      using ex l get by (simp add: k_def backoff_schedule_def)
    show "isl (outcome (HttpClient_get hc url skipCache cached world))"
      using ex l get by (simp add: k_def)
  }
  {
    assume h: "int i \<le> maxRetries hc \<and> (\<forall>j < i. retried_failure (world j)) \<and>
     world i = Responds s stext body \<and> 400 \<le> s \<and> s < 500 \<and> s \<noteq> 429 \<and>
     \<not> is_network_message (message (handleHttpError s stext url))"
    obtain l where l: "get_loop hc url world 0 None [] =
        get_loop hc url world i l ([] @ map (\<lambda>j. 2 ^ j * 1000) [0..<i])"
      using get_loop_skip [of 0 i world hc url None "[]"] h by auto
    show "HttpClient_get hc url skipCache cached world =
         \<lparr>outcome = Inl (handleHttpError s stext url), attempts = i + 1,
          backoffs = backoff_schedule i, cache_write = None\<rparr>"
      using get_loop_client_error [of world i s stext body url hc l] h l get
      by (simp add: backoff_schedule_def)
  }
qed

lemmas http_eval =
  HttpClient_get_def HttpClient_new_def js_or_def try_body_def handleHttpError_def
  catch_block_def new_RequestError_def new_RateLimitError_def new_AuthenticationError_def
  new_NotFoundError_def new_TimeoutError_def new_NetworkError_def new_SecEdgarApiError_def
  instanceof_def subclass_of_def is_network_message_def String_of_int_def
  String_of_nat.simps digit_char_def get_loop.simps retried_failure_def backoff_schedule_def

text \<open>
  Claim C1 as stated fails at status 408: the default client (three retries) meets
  \<open>408 Request Timeout\<close> and throws at the first attempt, without any retry.
\<close>

theorem HttpClient_get_408_not_retried:
  "maxRetries default_client = 3 \<and>
   HttpClient_get default_client ''u'' False None
     (\<lambda>j. Responds 408 ''Request Timeout'' (Inr (0::nat))) =
   \<lparr>outcome = Inl (new_RequestError ''HTTP 408: Request Timeout'' ''u'' (Some 408)),
    attempts = 1, backoffs = [], cache_write = None\<rparr>"
  by (simp add: default_client_def http_eval)

text \<open>
  The policy at work with the default client: a server that always answers 503 is asked
  four times; so is a host whose connection is reset each time (a transport failure with
  none of the four markers in its message); and a 400 that follows one timed-out fetch
  ends the run at the second attempt.
\<close>

theorem HttpClient_get_retry_policy_witness:
  "attempts (HttpClient_get default_client ''u'' False None
      (\<lambda>j. Responds 503 ''Service Unavailable'' (Inr (0::nat)))) = 4 \<and>
   backoffs (HttpClient_get default_client ''u'' False None
      (\<lambda>j. Responds 503 ''Service Unavailable'' (Inr (0::nat)))) = [1000, 2000, 4000] \<and>
   attempts (HttpClient_get default_client ''u'' False (None :: nat option)
      (\<lambda>j. Rejects (new_Error ''read ECONNRESET''))) = 4 \<and>
   backoffs (HttpClient_get default_client ''u'' False (None :: nat option)
      (\<lambda>j. Rejects (new_Error ''read ECONNRESET''))) = [1000, 2000, 4000] \<and>
   HttpClient_get default_client ''u'' False None
      (\<lambda>j. if j = 0 then Rejects (new_Error ''The user aborted a request.'' \<lparr>name := ''AbortError''\<rparr>)
           else Responds 400 ''Bad Request'' (Inr (0::nat))) =
     \<lparr>outcome = Inl (handleHttpError 400 ''Bad Request'' ''u''), attempts = 2,
      backoffs = [1000], cache_write = None\<rparr>"
  using HttpClient_get_retry_policy [where hc = default_client and skipCache = False
      and cached = None and url = "''u''"
      and world = "\<lambda>j. Responds 503 ''Service Unavailable'' (Inr (0::nat))"
      and i = 0 and s = 400 and stext = "''x''" and body = "Inr 0"]
    HttpClient_get_retry_policy [where hc = default_client and skipCache = False
      and cached = "None :: nat option" and url = "''u''"
      and world = "\<lambda>j. Rejects (new_Error ''read ECONNRESET'')"
      and i = 0 and s = 400 and stext = "''x''" and body = "Inr 0"]
    HttpClient_get_retry_policy [where hc = default_client and skipCache = False
      and cached = None and url = "''u''"
      and world = "\<lambda>j. if j = 0 then Rejects (new_Error ''The user aborted a request.'' \<lparr>name := ''AbortError''\<rparr>)
           else Responds 400 ''Bad Request'' (Inr (0::nat))"
      and i = 1 and s = 400 and stext = "''Bad Request''" and body = "Inr 0"]
  by (simp add: default_client_def http_eval new_Error_def upt_rec)

text \<open>
  The proviso on the error message leaves one behaviour of the catch block out of the
  policy. The block tests the message for the transport markers before it looks at the
  class and the status, so a 4xx response whose status text happens to hold a marker is
  kept as a \<open>NetworkError\<close> and retried, although the comment in that block says that
  client errors other than rate limits are not retried. The run below meets
  \<open>400 ETIMEDOUT\<close> four times.
\<close>

lemma HttpClient_get_marker_in_status_text:
  "HttpClient_get default_client ''u'' False None
     (\<lambda>j. Responds 400 ''ETIMEDOUT'' (Inr (0::nat))) =
   \<lparr>outcome = Inl (new_NetworkError ''HTTP 400: ETIMEDOUT'' ''u''),
    attempts = 4, backoffs = [1000, 2000, 4000], cache_write = None\<rparr>"
  by (simp add: default_client_def http_eval)

lemma get_loop_backoffs:
  "slept = backoff_schedule i \<Longrightarrow>
   backoffs (get_loop hc url world i l slept) =
     backoff_schedule (attempts (get_loop hc url world i l slept) - 1) \<or>
   (\<not> int i \<le> maxRetries hc \<and> backoffs (get_loop hc url world i l slept) = slept
     \<and> attempts (get_loop hc url world i l slept) = i)"
proof (induction hc url world i l slept rule: get_loop.induct)
  case (1 hc url world attempt lastError slept)
  show ?case
  proof (cases "int attempt \<le> maxRetries hc")
    case False
    then show ?thesis by (subst (1 2 3 4) get_loop.simps) simp
  next
    case le: True
    show ?thesis
    proof (cases "try_body url (world attempt)")
      case (Inr body)
      then show ?thesis using le 1(2) by (subst (1 2 3 4) get_loop.simps) simp
    next
      case (Inl e)
      show ?thesis
      proof (cases "catch_block hc url e")
        case (Rethrow e')
        then show ?thesis using le Inl 1(2) by (subst (1 2 3 4) get_loop.simps) simp
      next
        case (Keep e')
        show ?thesis
        proof (cases "int attempt = maxRetries hc")
          case True
          then show ?thesis using le Inl Keep 1(2) by (subst (1 2 3 4) get_loop.simps) simp
        next
          case False
          have sl: "slept @ [2 ^ attempt * 1000] = backoff_schedule (attempt + 1)"
            using 1(2) by (simp add: backoff_schedule_def)
          have le': "int (attempt + 1) \<le> maxRetries hc" using le False by simp
          have "backoffs (get_loop hc url world (attempt + 1) (Some e') (slept @ [2 ^ attempt * 1000])) =
                backoff_schedule (attempts (get_loop hc url world (attempt + 1) (Some e') (slept @ [2 ^ attempt * 1000])) - 1)"
            using 1(1) [OF le Inl Keep False sl] le' by blast
          then show ?thesis using le Inl Keep False
            by (subst (1 2 3 4) get_loop.simps) simp
        qed
      qed
    qed
  qed
qed

lemma HttpClient_get_backoffs:
  "backoffs (HttpClient_get hc url skipCache cached world) =
   backoff_schedule (attempts (HttpClient_get hc url skipCache cached world) - 1)"
proof (cases "if has_cache hc \<and> \<not> skipCache then cached else None")
  case (Some body)
  then show ?thesis by (simp add: HttpClient_get_def backoff_schedule_def)
next
  case None
  then have get: "HttpClient_get hc url skipCache cached world = get_loop hc url world 0 None []"
    by (simp add: HttpClient_get_def)
  show ?thesis
    using get_loop_backoffs [of "[]" 0 hc url world None] unfolding get
    by (auto simp: backoff_schedule_def)
qed

text \<open>
  Claim C2, as the code has it. The larger schedule for rate-limit errors is what
  \<open>ErrorHandler.getRetryDelay\<close> returns: \<open>min 60000 (2^attempt * 5000)\<close> ms, which is
  10000 ms at attempt 1, never more than 60 s, and strictly above the delay it returns
  for any other error. The retry loop of \<open>HttpClient.get\<close> does not use it: after its
  attempt \<open>j\<close> (counted from 0) it sleeps \<open>2^j * 1000\<close> ms, whatever the error was.
\<close>

theorem retry_delay_schedules:
  "(instanceof e RateLimitError_class \<longrightarrow>
      getRetryDelay e n = min 60000 (2 ^ n * 5000) \<and>
      getRetryDelay e 1 = 10000 \<and>
      getRetryDelay e n \<le> 60000 \<and>
      (\<not> instanceof e' RateLimitError_class \<longrightarrow> getRetryDelay e' n < getRetryDelay e n)) \<and>
   backoffs (HttpClient_get hc url skipCache cached world) =
     backoff_schedule (attempts (HttpClient_get hc url skipCache cached world) - 1)"
proof -
  have pos: "(0::int) < 2 ^ n" by simp
  have "min 30000 (2 ^ n * 1000) < min (60000::int) (2 ^ n * 5000)"
    using pos by (simp add: min_def)
  then show ?thesis
    by (simp add: getRetryDelay_def HttpClient_get_backoffs)
qed

text \<open>The two schedules of \<open>getRetryDelay\<close> at attempt 3.\<close>

theorem retry_delay_schedules_witness:
  "getRetryDelay (new_RateLimitError ''Rate limit exceeded'') 3 = 40000 \<and>
   getRetryDelay (new_TimeoutError ''u'' 30000) 3 = 8000"
  using retry_delay_schedules [where e = "new_RateLimitError ''Rate limit exceeded''"
      and e' = "new_TimeoutError ''u'' 30000" and n = 3]
  by (simp add: http_eval getRetryDelay_def)

text \<open>
  Claim C2 as stated fails in \<open>HttpClient.get\<close>: after two rate-limit responses the
  client has slept 1000 ms and 2000 ms, not 5000 ms and 10000 ms.
\<close>

theorem HttpClient_get_rate_limit_backoff:
  "HttpClient_get default_client ''u'' False None
     (\<lambda>j. if j < 2 then Responds 429 ''Too Many Requests'' (Inr 0) else Responds 200 ''OK'' (Inr (7::nat))) =
   \<lparr>outcome = Inr 7, attempts = 3, backoffs = [1000, 2000], cache_write = Some 7\<rparr>"
  by (simp add: default_client_def http_eval)

section \<open>Cache: eviction and expiry\<close>

lemma update_new: "key \<notin> fst ` set al \<Longrightarrow> AList.update key v al = al @ [(key, v)]"
  by (induction al) auto

lemma Cache_set_no_evict:
  assumes "\<not> (int (length (cache c)) \<ge> maxSize (options c))" "key \<notin> fst ` set (cache c)"
    "key \<notin> set (accessOrder c)"
  shows "\<exists>entry. data entry = d \<and>
           cache (Cache_set now key d ttl_arg c) = cache c @ [(key, entry)] \<and>
           accessOrder (Cache_set now key d ttl_arg c) = accessOrder c @ [key] \<and>
           options (Cache_set now key d ttl_arg c) = options c"
  using assms
  by (simp add: Cache_set_def Let_def updateAccessOrder_def removeFromAccessOrder_def
      update_new remove1_idem)

lemma Cache_set_evict:
  assumes "int (length (cache c)) \<ge> maxSize (options c)" "key \<notin> fst ` set (cache c)"
    "key \<notin> set (accessOrder c)" "accessOrder c = lru # ao" "distinct (accessOrder c)"
  shows "\<exists>entry. data entry = d \<and>
           cache (Cache_set now key d ttl_arg c) = AList.delete lru (cache c) @ [(key, entry)] \<and>
           accessOrder (Cache_set now key d ttl_arg c) = ao @ [key] \<and>
           options (Cache_set now key d ttl_arg c) = options c"
proof -
  have ev: "evictLRU c = c\<lparr>accessOrder := ao, cache := AList.delete lru (cache c)\<rparr>"
    using assms(4) by (simp add: evictLRU_def Cache_delete_def removeFromAccessOrder_def Let_def)
  have notin: "key \<notin> fst ` set (AList.delete lru (cache c))"
    using assms(2) by (simp add: keys_delete)
  have k: "key \<notin> set ao" using assms(3,4) by simp
  show ?thesis
    using assms(1,2) k
    by (simp add: Cache_set_def Let_def Map_has_def ev updateAccessOrder_def
        removeFromAccessOrder_def update_new [OF notin] remove1_idem)
qed

lemma Cache_set_all_below_capacity:
  assumes "distinct (map op_key ops)" "set (map op_key ops) \<inter> fst ` set (cache c) = {}"
    "accessOrder c = map fst (cache c)"
    "int (length (cache c) + length ops) \<le> maxSize (options c)"
  shows "contents (Cache_set_all ops c) = contents c @ map (\<lambda>op. (op_key op, op_value op)) ops \<and>
         accessOrder (Cache_set_all ops c) = map fst (cache c) @ map op_key ops \<and>
         options (Cache_set_all ops c) = options c"
  using assms
proof (induction ops arbitrary: c)
  case Nil
  then show ?case by simp
next
  case (Cons op ops)
  obtain now key d ttl_arg where op: "op = (now, key, d, ttl_arg)"
    by (cases op) auto
  define c1 where "c1 = Cache_set now key d ttl_arg c"
  have new: "key \<notin> fst ` set (cache c)" "key \<notin> set (accessOrder c)"
    using Cons.prems(2,3) by (auto simp: op op_key_def)
  have room: "\<not> (int (length (cache c)) \<ge> maxSize (options c))"
    using Cons.prems(4) by simp
  obtain entry where e: "data entry = d" "cache c1 = cache c @ [(key, entry)]"
    "accessOrder c1 = accessOrder c @ [key]" "options c1 = options c"
    using Cache_set_no_evict [OF room new, of d now ttl_arg] unfolding c1_def by blast
  have p1: "distinct (map op_key ops)" using Cons.prems(1) by simp
  have p2: "set (map op_key ops) \<inter> fst ` set (cache c1) = {}"
    using Cons.prems(1,2) by (auto simp: e op op_key_def)
  have p3: "accessOrder c1 = map fst (cache c1)"
    using Cons.prems(3) by (simp add: e)
  have p4: "int (length (cache c1) + length ops) \<le> maxSize (options c1)"
    using Cons.prems(4) by (simp add: e)
  from Cons.IH [OF p1 p2 p3 p4] show ?case
    by (simp add: op c1_def [symmetric] e contents_def op_key_def op_value_def)
qed

lemma delete_first: "map fst al = k # ks \<Longrightarrow> k \<notin> set ks \<Longrightarrow> AList.delete k al = tl al"
proof (cases al)
  case Nil
  then show ?thesis by simp
next
  case (Cons p ps)
  assume a: "map fst al = k # ks" "k \<notin> set ks"
  have 1: "fst p = k" and 2: "map fst ps = ks" using a(1) Cons by simp_all
  have "set ks = fst ` set ps" unfolding 2 [symmetric] by simp
  then have "k \<notin> fst ` set ps" using a(2) by simp
  then have "AList.delete k ps = ps" by (rule AList.delete_id)
  then show ?thesis using Cons 1 by (cases p) simp
qed

lemma keys_contents: "map fst (contents c) = map fst (cache c)"
  by (simp add: contents_def case_prod_unfold)

lemma Cache_set_all_append:
  "Cache_set_all (xs @ ys) c = Cache_set_all ys (Cache_set_all xs c)"
  by (induction xs arbitrary: c) auto

lemma Cache_set_all_fill:
  assumes "maxSize (options (Cache_new opts :: 'v Cache)) = int K" "distinct (map op_key ops)"
    "length ops \<le> K"
  shows "contents (Cache_set_all ops (Cache_new opts :: 'v Cache)) =
           map (\<lambda>op. (op_key op, op_value op)) ops \<and>
         accessOrder (Cache_set_all ops (Cache_new opts :: 'v Cache)) = map op_key ops \<and>
         options (Cache_set_all ops (Cache_new opts :: 'v Cache)) = options (Cache_new opts :: 'v Cache)"
proof -
  have e: "cache (Cache_new opts :: 'v Cache) = []" "accessOrder (Cache_new opts :: 'v Cache) = []"
    by (simp_all add: Cache_new_def)
  show ?thesis
    using Cache_set_all_below_capacity [of ops "Cache_new opts :: 'v Cache"] assms
    by (simp add: e contents_def)
qed

lemma Cache_set_all_overflow:
  assumes K: "maxSize (options (Cache_new opts :: 'v Cache)) = int K"
    and len: "length ops = K + 1" and dist: "distinct (map op_key ops)"
  shows "contents (Cache_set_all ops (Cache_new opts :: 'v Cache)) =
           tl (map (\<lambda>op. (op_key op, op_value op)) ops)"
proof -
  have Kpos: "K \<noteq> 0"
    using K by (auto simp: Cache_new_def js_or_def split: option.splits if_splits)
  obtain init op where ops: "ops = init @ [op]"
    using len by (cases ops rule: rev_cases) auto
  obtain now key d ttl_arg where op: "op = (now, key, d, ttl_arg)"
    by (cases op) auto
  have linit: "length init = K" using len ops by simp
  obtain first others where init: "init = first # others"
    using linit Kpos by (cases init) auto
  define c where "c = Cache_set_all init (Cache_new opts :: 'v Cache)"
  have dinit: "distinct (map op_key init)" using dist ops by simp
  have fill: "contents c = map (\<lambda>op. (op_key op, op_value op)) init"
    "accessOrder c = map op_key init" "options c = options (Cache_new opts :: 'v Cache)"
    using Cache_set_all_fill [OF K dinit] linit unfolding c_def by simp_all
  have keys: "map fst (cache c) = map op_key init"
    using fill(1) keys_contents [of c] by (simp add: comp_def)
  have lenc: "length (cache c) = K"
  proof -
    have "length (map fst (cache c)) = length (map op_key init)" by (simp only: keys)
    then show ?thesis using linit by simp
  qed
  have full: "int (length (cache c)) \<ge> maxSize (options c)"
    using lenc K fill(3) by simp
  have keyset: "fst ` set (cache c) = op_key ` set init"
  proof -
    have "set (map fst (cache c)) = set (map op_key init)" by (simp only: keys)
    then show ?thesis by simp
  qed
  have key: "key = op_key op" by (simp add: op op_key_def)
  have fresh: "op_key op \<notin> op_key ` set init" using dist by (simp add: ops)
  have knew: "key \<notin> fst ` set (cache c)" "key \<notin> set (accessOrder c)"
    using fresh by (simp_all add: keyset key fill(2))
  have ao: "accessOrder c = op_key first # map op_key others"
    using fill(2) init by simp
  have dao: "distinct (accessOrder c)" using fill(2) dinit by simp
  obtain entry where e: "data entry = d"
    "cache (Cache_set now key d ttl_arg c) = AList.delete (op_key first) (cache c) @ [(key, entry)]"
    using Cache_set_evict [OF full knew ao dao, of d now ttl_arg] by blast
  have del: "AList.delete (op_key first) (cache c) = tl (cache c)"
  proof (rule delete_first [where ks = "map op_key others"])
    show "map fst (cache c) = op_key first # map op_key others" using keys init by simp
    show "op_key first \<notin> set (map op_key others)" using dinit init by simp
  qed
  have "contents (Cache_set now key d ttl_arg c) = tl (contents c) @ [(key, d)]"
    by (simp add: contents_def e del map_tl)
  then have "contents (Cache_set now key d ttl_arg c) =
      map (\<lambda>op. (op_key op, op_value op)) others @ [(op_key op, op_value op)]"
    by (simp add: fill(1) init op op_key_def op_value_def)
  moreover have "Cache_set_all ops (Cache_new opts :: 'v Cache) = Cache_set now key d ttl_arg c"
    by (simp add: ops Cache_set_all_append c_def op)
  ultimately show ?thesis by (simp add: ops init)
qed

lemma Cache_size_contents: "Cache_size c = length (contents c)"
  by (simp add: Cache_size_def contents_def)

lemma Cache_set_all_size:
  assumes K: "maxSize (options (Cache_new opts :: 'v Cache)) = int K"
    and len: "length ops = K + 1" and dist: "distinct (map op_key ops)" and n: "n \<le> K + 1"
  shows "Cache_size (Cache_set_all (take n ops) (Cache_new opts :: 'v Cache)) \<le> K"
proof (cases "n \<le> K")
  case True
  have "distinct (map op_key (take n ops))"
    using dist by (simp add: take_map [symmetric] distinct_take del: take_map)
  moreover have "length (take n ops) \<le> K" using True by simp
  ultimately have "contents (Cache_set_all (take n ops) (Cache_new opts :: 'v Cache)) =
           map (\<lambda>op. (op_key op, op_value op)) (take n ops)"
    using Cache_set_all_fill [OF K] by blast
  then show ?thesis using True by (simp add: Cache_size_contents)
next
  case False
  then have "take n ops = ops" using n len by simp
  then show ?thesis
    using Cache_set_all_overflow [OF K len dist] len by (simp add: Cache_size_contents)
qed

lemma Cache_get_live:
  assumes "map_of (cache c) k = Some e" "\<not> is_expired now e"
  shows "fst (Cache_get now k c) = Some (data e)"
    and "accessOrder (snd (Cache_get now k c)) = remove1 k (accessOrder c) @ [k]"
    and "cache (snd (Cache_get now k c)) = cache c"
    and "options (snd (Cache_get now k c)) = options c"
  using assms
  by (simp_all add: Cache_get_def Let_def updateAccessOrder_def removeFromAccessOrder_def)

lemma Cache_get_promotes:
  assumes wf: "cache_wf c" and full: "int (length (cache c)) \<ge> maxSize (options c)"
    and live: "map_of (cache c) k = Some e" "\<not> is_expired now e"
    and two: "length (cache c) \<ge> 2" and new: "\<not> Map_has (cache c) k'"
  shows "\<exists>lru rest.
           accessOrder (snd (Cache_get now k c)) = lru # rest @ [k] \<and> lru \<noteq> k \<and>
           lru \<in> set (Cache_keys c) \<and>
           set (Cache_keys (Cache_set now' k' v ttl_arg (snd (Cache_get now k c)))) =
             insert k' (set (Cache_keys c) - {lru})"
proof -
  define c1 where "c1 = snd (Cache_get now k c)"
  note g = Cache_get_live [OF live, folded c1_def]
  have d: "distinct (accessOrder c)" and s: "set (accessOrder c) = set (map fst (cache c))"
    and dk: "distinct (map fst (cache c))"
    using wf by (simp_all add: cache_wf_def)
  have "length (accessOrder c) = length (map fst (cache c))"
    using d dk s by (metis distinct_card)
  then have len: "length (accessOrder c) \<ge> 2" using two by simp
  have kin: "k \<in> set (accessOrder c)"
    using live(1) s by (metis map_of_SomeD fst_conv image_eqI set_map)
  have "length (remove1 k (accessOrder c)) = length (accessOrder c) - 1"
    using kin by (simp add: length_remove1)
  then obtain lru rest where r: "remove1 k (accessOrder c) = lru # rest"
    using len by (cases "remove1 k (accessOrder c)") auto
  have "lru \<in> set (remove1 k (accessOrder c))" by (simp add: r)
  then have lru: "lru \<in> set (accessOrder c)" "lru \<noteq> k"
    using d by simp_all
  have ao1: "accessOrder c1 = lru # (rest @ [k])" using g(2) r by simp
  have wf1: "cache_wf c1" unfolding c1_def by (rule cache_wf_get [OF wf])
  have d1: "distinct (accessOrder c1)" using wf1 by (simp add: cache_wf_def)
  have knew: "k' \<notin> fst ` set (cache c1)" using new g(3) by (simp add: Map_has_def)
  have "set (accessOrder c1) = fst ` set (cache c1)" using wf1 by (simp add: cache_wf_def)
  then have knew2: "k' \<notin> set (accessOrder c1)" using knew by simp
  have full1: "int (length (cache c1)) \<ge> maxSize (options c1)" using full g(3,4) by simp
  obtain entry where
    "cache (Cache_set now' k' v ttl_arg c1) = AList.delete lru (cache c1) @ [(k', entry)]"
    using Cache_set_evict [OF full1 knew knew2 ao1 d1, of v now' ttl_arg] by blast
  then have "set (Cache_keys (Cache_set now' k' v ttl_arg c1)) =
      insert k' (set (Cache_keys c) - {lru})"
    by (simp add: Cache_keys_def keys_delete g(3))
  moreover have "lru \<in> set (Cache_keys c)" using lru(1) s by (simp add: Cache_keys_def)
  ultimately show ?thesis using ao1 lru(2) unfolding c1_def by auto
qed

text \<open>
  Claim C3. A cache is constructed with maximum size \<open>K\<close> (the size its options hold after
  construction). Setting \<open>K + 1\<close> distinct keys on it, with nothing in between, leaves
  exactly the last \<open>K\<close> keys with their values, in insertion order: the first-inserted
  key is the one evicted, and the size never exceeds \<open>K\<close> along the way. And in any
  cache at capacity that holds at least two keys, a \<open>get\<close> of a live key \<open>k\<close> returns its
  value and moves \<open>k\<close> to the most recent end of the access order; the next \<open>set\<close> of a
  new key then evicts the key \<open>lru\<close> at the least recent end, which is not \<open>k\<close>, and
  nothing else.
\<close>

theorem Cache_LRU_eviction:
  "(maxSize (options (Cache_new opts :: 'v Cache)) = int K \<and> length ops = K + 1 \<and>
    distinct (map op_key ops) \<longrightarrow>
      contents (Cache_set_all ops (Cache_new opts :: 'v Cache)) =
        tl (map (\<lambda>op. (op_key op, op_value op)) ops) \<and>
      \<not> Map_has (cache (Cache_set_all ops (Cache_new opts :: 'v Cache))) (op_key (hd ops)) \<and>
      Cache_size (Cache_set_all ops (Cache_new opts :: 'v Cache)) = K \<and>
      (\<forall>n \<le> K + 1. Cache_size (Cache_set_all (take n ops) (Cache_new opts :: 'v Cache)) \<le> K)) \<and>
   (cache_wf c \<and> int (length (cache (c :: 'v Cache))) \<ge> maxSize (options c) \<and>
    map_of (cache c) k = Some e \<and> \<not> is_expired now e \<and> length (cache c) \<ge> 2 \<and>
    \<not> Map_has (cache c) k' \<longrightarrow>
      fst (Cache_get now k c) = Some (data e) \<and>
      (\<exists>lru rest.
         accessOrder (snd (Cache_get now k c)) = lru # rest @ [k] \<and> lru \<noteq> k \<and>
         lru \<in> set (Cache_keys c) \<and>
         set (Cache_keys (Cache_set now' k' v ttl_arg (snd (Cache_get now k c)))) =
           insert k' (set (Cache_keys c) - {lru})))"
proof (intro conjI impI allI)
  assume h: "maxSize (options (Cache_new opts :: 'v Cache)) = int K \<and> length ops = K + 1 \<and>
    distinct (map op_key ops)"
  then have K: "maxSize (options (Cache_new opts :: 'v Cache)) = int K"
    and len: "length ops = K + 1" and dist: "distinct (map op_key ops)" by simp_all
  note ov = Cache_set_all_overflow [OF K len dist]
  show "contents (Cache_set_all ops (Cache_new opts :: 'v Cache)) =
        tl (map (\<lambda>op. (op_key op, op_value op)) ops)" by (rule ov)
  obtain first others where ops: "ops = first # others" using len by (cases ops) auto
  have "op_key first \<notin> set (map op_key others)" using dist ops by simp
  moreover have "map fst (cache (Cache_set_all ops (Cache_new opts :: 'v Cache))) = map op_key others"
    using ov keys_contents [of "Cache_set_all ops (Cache_new opts :: 'v Cache)"]
    by (simp add: ops comp_def)
  ultimately show "\<not> Map_has (cache (Cache_set_all ops (Cache_new opts :: 'v Cache))) (op_key (hd ops))"
    by (simp add: Map_has_def ops)
  show "Cache_size (Cache_set_all ops (Cache_new opts :: 'v Cache)) = K"
    using ov len by (simp add: Cache_size_contents)
  fix n assume "n \<le> K + 1"
  then show "Cache_size (Cache_set_all (take n ops) (Cache_new opts :: 'v Cache)) \<le> K"
    by (rule Cache_set_all_size [OF K len dist])
next
  assume h: "cache_wf c \<and> int (length (cache (c :: 'v Cache))) \<ge> maxSize (options c) \<and>
    map_of (cache c) k = Some e \<and> \<not> is_expired now e \<and> length (cache c) \<ge> 2 \<and>
    \<not> Map_has (cache c) k'"
  then show "fst (Cache_get now k c) = Some (data e)"
    using Cache_get_live(1) by blast
  show "\<exists>lru rest.
         accessOrder (snd (Cache_get now k c)) = lru # rest @ [k] \<and> lru \<noteq> k \<and>
         lru \<in> set (Cache_keys c) \<and>
         set (Cache_keys (Cache_set now' k' v ttl_arg (snd (Cache_get now k c)))) =
           insert k' (set (Cache_keys c) - {lru})"
    using h Cache_get_promotes [of c k e now k' now' v ttl_arg] by blast
qed

lemmas cache_eval =
  Cache_new_def Cache_set_def Cache_get_def Cache_delete_def evictLRU_def
  updateAccessOrder_def removeFromAccessOrder_def is_expired_def Map_has_def
  Cache_size_def Cache_keys_def js_or_def js_or_bool_def Let_def cache_wf_def
  test_options_def default_options_def three_keys_def op_key_def op_value_def contents_def

text \<open>
  The cache of the test suite (capacity 3): a fourth key evicts \<open>key1\<close>; after a \<open>get\<close> of
  \<open>key1\<close> the fourth key evicts \<open>key2\<close> instead.
\<close>

theorem Cache_LRU_eviction_witness:
  "contents (Cache_set_all
      [(10, ''key1'', 1, None), (20, ''key2'', 2, None), (30, ''key3'', 3, None),
       (40, ''key4'', 4, None)] (Cache_new test_options :: nat Cache)) =
     [(''key2'', 2), (''key3'', 3), (''key4'', 4)] \<and>
   fst (Cache_get 40 ''key1'' three_keys) = Some 1 \<and>
   Cache_keys (Cache_set 50 ''key4'' 4 None (snd (Cache_get 40 ''key1'' three_keys))) =
     [''key1'', ''key3'', ''key4'']"
  using Cache_LRU_eviction [where opts = test_options and K = 3
      and ops = "[(10, ''key1'', 1::nat, None), (20, ''key2'', 2, None), (30, ''key3'', 3, None),
       (40, ''key4'', 4, None)]"
      and c = three_keys and k = "''key1''"
      and e = "\<lparr>data = 1, timestamp = 10, expiry = Some 1010\<rparr>" and now = 40
      and k' = "''key4''" and now' = 50 and v = 4 and ttl_arg = None]
  by (simp add: cache_eval)

lemma Cache_set_entry:
  "map_of (cache (Cache_set t0 key v ttl_arg c)) key =
     Some \<lparr>data = v, timestamp = t0,
           expiry = (if js_or ttl_arg (ttl (options c)) > 0
                     then Some (t0 + js_or ttl_arg (ttl (options c))) else None)\<rparr>"
  by (simp add: Cache_set_def Let_def updateAccessOrder_def removeFromAccessOrder_def
      update_conv')

lemma Cache_get_after_set:
  "fst (Cache_get t key (Cache_set t0 key v ttl_arg c)) =
     (if js_or ttl_arg (ttl (options c)) > 0 \<and> t0 + js_or ttl_arg (ttl (options c)) \<noteq> 0 \<and>
         t > t0 + js_or ttl_arg (ttl (options c))
      then None else Some v)"
  by (simp add: Cache_get_def Cache_set_entry is_expired_def Let_def)

text \<open>
  Claim C4, as the code has it. An entry set with a negative ttl never expires. An entry
  set at time \<open>t0 \<ge> 0\<close> with a positive ttl \<open>T\<close> is returned by \<open>get\<close> at every time up to
  \<open>t0 + T\<close> and is a miss strictly after; setting the key again at \<open>t1\<close> with ttl \<open>T'\<close>
  starts the clock anew, whatever the first ttl was. A ttl of \<open>0\<close> is the same as no ttl
  argument at all: both select the default ttl of the cache, which after construction is
  never \<open>0\<close>.
\<close>

theorem Cache_ttl:
  "(T < 0 \<longrightarrow> fst (Cache_get t key (Cache_set t0 key v (Some T) c)) = Some v) \<and>
   (0 < T \<and> 0 \<le> t0 \<longrightarrow>
      (t \<le> t0 + T \<longrightarrow> fst (Cache_get t key (Cache_set t0 key v (Some T) c)) = Some v) \<and>
      (t0 + T < t \<longrightarrow> fst (Cache_get t key (Cache_set t0 key v (Some T) c)) = None)) \<and>
   (0 < T' \<and> 0 \<le> t1 \<longrightarrow>
      (t \<le> t1 + T' \<longrightarrow>
         fst (Cache_get t key (Cache_set t1 key v' (Some T') (Cache_set t0 key v (Some T) c))) = Some v') \<and>
      (t1 + T' < t \<longrightarrow>
         fst (Cache_get t key (Cache_set t1 key v' (Some T') (Cache_set t0 key v (Some T) c))) = None)) \<and>
   Cache_set t0 key v (Some 0) c = Cache_set t0 key v None c \<and>
   (ttl (options c) \<noteq> 0 \<longrightarrow>
      Cache_set t0 key v None c = Cache_set t0 key v (Some (ttl (options c))) c) \<and>
   ttl (options (Cache_new opts :: 'v Cache)) \<noteq> 0"
proof (intro conjI impI)
  show "ttl (options (Cache_new opts :: 'v Cache)) \<noteq> 0"
    by (simp add: Cache_new_def js_or_def split: option.splits)
  show "Cache_set t0 key v (Some 0) c = Cache_set t0 key v None c"
    by (simp add: Cache_set_def js_or_def)
  show "Cache_set t0 key v None c = Cache_set t0 key v (Some (ttl (options c))) c"
    if "ttl (options c) \<noteq> 0"
    using that by (simp add: Cache_set_def js_or_def)
qed (simp_all add: Cache_get_after_set js_or_def)

text \<open>A ttl of 500 ms set at time 1000: a hit at 1500, a miss at 1501; set again at 1400, a
  hit at 1600. A ttl of \<open>-1\<close>: a hit at any time.\<close>

theorem Cache_ttl_witness:
  "fst (Cache_get 999999 ''k'' (Cache_set 1000 ''k'' (7::nat) (Some (- 1)) (Cache_new test_options))) = Some 7 \<and>
   fst (Cache_get 1500 ''k'' (Cache_set 1000 ''k'' (7::nat) (Some 500) (Cache_new test_options))) = Some 7 \<and>
   fst (Cache_get 1501 ''k'' (Cache_set 1000 ''k'' (7::nat) (Some 500) (Cache_new test_options))) = None \<and>
   fst (Cache_get 1600 ''k'' (Cache_set 1400 ''k'' 8 (Some 500)
      (Cache_set 1000 ''k'' (7::nat) (Some 500) (Cache_new test_options)))) = Some 8"
  using Cache_ttl [where T = "- 1" and t = 999999 and key = "''k''" and ?t0.0 = 1000 and v = "7::nat"
      and c = "Cache_new test_options" and T' = 500 and ?t1.0 = 1400 and v' = 8 and opts = test_options]
    Cache_ttl [where T = 500 and t = 1500 and key = "''k''" and ?t0.0 = 1000 and v = "7::nat"
      and c = "Cache_new test_options" and T' = 500 and ?t1.0 = 1400 and v' = 8 and opts = test_options]
    Cache_ttl [where T = 500 and t = 1501 and key = "''k''" and ?t0.0 = 1000 and v = "7::nat"
      and c = "Cache_new test_options" and T' = 500 and ?t1.0 = 1400 and v' = 8 and opts = test_options]
    Cache_ttl [where T = 500 and t = 1600 and key = "''k''" and ?t0.0 = 1000 and v = "7::nat"
      and c = "Cache_new test_options" and T' = 500 and ?t1.0 = 1400 and v' = 8 and opts = test_options]
  by (simp add: cache_eval)

text \<open>
  Claim C4 as stated fails for a ttl of \<open>0\<close>: on a cache with default options the entry
  takes the default ttl of one hour, and is a miss one millisecond after that hour.
\<close>

theorem Cache_ttl_zero_expires:
  "fst (Cache_get 3601001 ''k''
     (Cache_set 1000 ''k'' (7::nat) (Some 0) (Cache_new default_options))) = None"
  by (simp add: cache_eval)

section \<open>FinancialFormParser: the derived ratios\<close>















section \<open>FinancialFormParser: the risk factors\<close>

lemma length_substring: "0 \<le> b \<Longrightarrow> length (substring s 0 b) \<le> nat b"
  by (simp add: substring_def Let_def)

text \<open>
  Claim C9. Whatever the text and whatever the regular-expression engine finds in it,
  \<open>getRiskFactors\<close> returns at most ten records, and no description is longer than 500
  characters.
\<close>

theorem getRiskFactors_bounds:
  "length (getRiskFactors eng rawContent) \<le> 10 \<and>
   (\<forall>r \<in> set (getRiskFactors eng rawContent). length (description r) \<le> 500)"
proof
  show "length (getRiskFactors eng rawContent) \<le> 10"
    by (simp add: getRiskFactors_def Let_def)
  show "\<forall>r \<in> set (getRiskFactors eng rawContent). length (description r) \<le> 500"
  proof
    fix r assume "r \<in> set (getRiskFactors eng rawContent)"
    then have "r \<in> set (map (\<lambda>factor.
                          \<lparr>category = extractRiskCategory factor,
                           description = substring (trim factor) 0 500,
                           severity = assessRiskSeverity factor\<rparr>)
                 (filter (\<lambda>f. length (trim f) > 50)
                      (re_split eng risk_split_pattern []
                         (extractSection eng rawContent ''RISK FACTORS|ITEM 1A''))))"
      unfolding getRiskFactors_def Let_def by (rule in_set_takeD)
    then obtain factor where "description r = substring (trim factor) 0 500" by auto
    then show "length (description r) \<le> 500"
      using length_substring [of 500 "trim factor"] by simp
  qed
qed


lemma getRiskFactors_sample:
  "map (\<lambda>r. (category r, severity r, length (description r)))
     (getRiskFactors risk_engine sample_risk_filing) =
   [(''Market Risk'', ''high'', 84), (''General Risk'', ''medium'', 86)]"
  by code_simp

text \<open>The sample filing yields its two risk factors, classified and well under the bounds.\<close>

theorem getRiskFactors_bounds_witness:
  "length (getRiskFactors risk_engine sample_risk_filing) = 2 \<and>
   map (\<lambda>r. (category r, severity r, length (description r)))
     (getRiskFactors risk_engine sample_risk_filing) =
   [(''Market Risk'', ''high'', 84), (''General Risk'', ''medium'', 86)]"
proof -
  have "length (getRiskFactors risk_engine sample_risk_filing) =
        length (map (\<lambda>r. (category r, severity r, length (description r)))
          (getRiskFactors risk_engine sample_risk_filing))"
    by simp
  also have "\<dots> = 2"
    by (simp only: getRiskFactors_sample) simp
  finally have len: "length (getRiskFactors risk_engine sample_risk_filing) = 2" .
  show ?thesis
    using getRiskFactors_bounds [of risk_engine sample_risk_filing]
    by (simp add: len getRiskFactors_sample)
qed

section \<open>OwnershipFormParser: malformed XML\<close>





section \<open>ItemExtractor: the keys of the result\<close>

lemma keys_dict_assign: "fst ` set (dict_assign obj key v) \<subseteq> insert key (fst ` set obj)"
  by (auto simp: dict_assign_def dom_update)

lemma keys_postProcess_step:
  "fst ` set (postProcess_step eng processed entry) \<subseteq> insert (fst entry) (fst ` set processed)"
  using keys_dict_assign [of processed "fst entry"]
  by (simp add: postProcess_step_def Let_def)

lemma keys_postProcess_foldl:
  "fst ` set (foldl (postProcess_step eng) acc items) \<subseteq> fst ` set acc \<union> fst ` set items"
proof (induction items arbitrary: acc)
  case Nil
  then show ?case by simp
next
  case (Cons p items)
  have "fst ` set (foldl (postProcess_step eng) (postProcess_step eng acc p) items)
        \<subseteq> fst ` set (postProcess_step eng acc p) \<union> fst ` set items"
    by (rule Cons.IH)
  also have "\<dots> \<subseteq> insert (fst p) (fst ` set acc) \<union> fst ` set items"
    using keys_postProcess_step [of eng acc p] by blast
  finally show ?case by auto
qed

lemma keys_postProcessItems: "fst ` set (postProcessItems eng items) \<subseteq> fst ` set items"
  using keys_postProcess_foldl [of eng "[]" items] by (simp add: postProcessItems_def)

lemma keys_extract_step:
  "fst ` set (extract_step eng text0 tocItems items itemDef) \<subseteq> insert (number itemDef) (fst ` set items)"
  by (auto simp: extract_step_def dom_update split: option.splits)

lemma keys_extract_foldl:
  "fst ` set (foldl (extract_step eng text0 tocItems) acc defs) \<subseteq> fst ` set acc \<union> number ` set defs"
proof (induction defs arbitrary: acc)
  case Nil
  then show ?case by simp
next
  case (Cons d defs)
  have "fst ` set (foldl (extract_step eng text0 tocItems) (extract_step eng text0 tocItems acc d) defs)
        \<subseteq> fst ` set (extract_step eng text0 tocItems acc d) \<union> number ` set defs"
    by (rule Cons.IH)
  also have "\<dots> \<subseteq> insert (number d) (fst ` set acc) \<union> number ` set defs"
    using keys_extract_step [of eng text0 tocItems acc d] by blast
  finally show ?case by auto
qed

lemma keys_extractItemsFromContent:
  "formItems ft = Some defs \<Longrightarrow>
   fst ` set (extractItemsFromContent eng text0 ft tocItems) \<subseteq> number ` set defs"
  using keys_extract_foldl [of eng text0 tocItems "[]" defs]
  by (simp add: extractItemsFromContent_def)

lemma extractItems_keys:
  assumes "extractItems eng text0 form_type = Inr processed"
  shows "\<exists>ft defs. parseFormType form_type = Inr ft \<and> formItems ft = Some defs \<and>
           fst ` set processed \<subseteq> number ` set defs"
proof -
  obtain ft where ft: "parseFormType form_type = Inr ft"
    using assms by (cases "parseFormType form_type") (simp_all add: extractItems_def)
  obtain defs where defs: "formItems ft = Some defs"
    using assms ft by (cases "formItems ft") (simp_all add: extractItems_def)
  have "processed = postProcessItems eng
          (extractItemsFromContent eng (cleanContent eng text0) ft
             (extractTableOfContents eng (cleanContent eng text0)))"
    using assms ft defs by (simp add: extractItems_def Let_def)
  then have "fst ` set processed \<subseteq> number ` set defs"
    using keys_postProcessItems keys_extractItemsFromContent [OF defs] by blast
  then show ?thesis using ft defs by blast
qed


text \<open>
  Claim C10. When \<open>extractItems\<close> returns, the form type is one with a registry, and every
  key of the result is the number of an item of that registry; for form 8-K the keys are
  among the fifteen numbers from 1.01 to 9.01.
\<close>

theorem extractItems_keys_in_registry:
  "extractItems eng text0 form_type = Inr processed \<longrightarrow>
     (\<exists>ft defs. parseFormType form_type = Inr ft \<and> formItems ft = Some defs \<and>
        set (map fst processed) \<subseteq> set (map number defs)) \<and>
     (parseFormType form_type = Inr FORM_8K \<longrightarrow>
        set (map fst processed) \<subseteq>
          {''1.01'', ''1.02'', ''2.01'', ''2.02'', ''2.03'', ''3.01'', ''3.02'', ''4.01'', ''4.02'',
           ''5.01'', ''5.02'', ''5.03'', ''7.01'', ''8.01'', ''9.01''})"
proof (intro impI conjI)
  assume ex: "extractItems eng text0 form_type = Inr processed"
  from extractItems_keys [OF ex] obtain ft defs where
    k: "parseFormType form_type = Inr ft" "formItems ft = Some defs"
      "fst ` set processed \<subseteq> number ` set defs"
    by blast
  then show "\<exists>ft defs. parseFormType form_type = Inr ft \<and> formItems ft = Some defs \<and>
        set (map fst processed) \<subseteq> set (map number defs)"
    by auto
  assume "parseFormType form_type = Inr FORM_8K"
  then have "defs = FORM_8K_ITEMS" using k(1,2) by simp
  moreover have "number ` set FORM_8K_ITEMS =
      {''1.01'', ''1.02'', ''2.01'', ''2.02'', ''2.03'', ''3.01'', ''3.02'', ''4.01'', ''4.02'',
       ''5.01'', ''5.02'', ''5.03'', ''7.01'', ''8.01'', ''9.01''}"
    by (simp add: FORM_8K_ITEMS_def item_def)
  ultimately show "set (map fst processed) \<subseteq>
      {''1.01'', ''1.02'', ''2.01'', ''2.02'', ''2.03'', ''3.01'', ''3.02'', ''4.01'', ''4.02'',
       ''5.01'', ''5.02'', ''5.03'', ''7.01'', ''8.01'', ''9.01''}"
    using k(3) by simp
qed

lemma extractItems_sample:
  "extractItems item_engine sample_filing ''10-K'' = Inr [(''1'', Content sample_filing)]"
  by code_simp

lemma parseFormType_sample: "parseFormType ''10-K'' = Inr FORM_10K"
  by code_simp

text \<open>The sample filing has its item 1 extracted, and nothing else.\<close>

theorem extractItems_keys_in_registry_witness:
  "extractItems item_engine sample_filing ''10-K'' = Inr [(''1'', Content sample_filing)] \<and>
   parseFormType ''10-K'' = Inr FORM_10K \<and>
   ''1'' \<in> set (map number FORM_10K_ITEMS)"
  using extractItems_keys_in_registry [of item_engine sample_filing "''10-K''"
      "[(''1'', Content sample_filing)]"] extractItems_sample parseFormType_sample
  by (simp add: FORM_10K_ITEMS_def item_def)


section \<open>ItemExtractor: the requested items\<close>

lemma map_of_None_keys: "(map_of al k = None) = (k \<notin> fst ` set al)"
  by (simp add: map_of_eq_None_iff)

lemma specific_step_own:
  assumes "k \<notin> set Object_prototype_keys"
  shows "map_of (specific_step allItems acc k) = map_of acc ++ (map_of allItems |` {k})"
proof -
  have np: "k \<noteq> ''__proto__''"
    using assms by (auto simp: Object_prototype_keys_def)
  show ?thesis
  proof (cases "map_of allItems k")
    case None
    then have "k \<notin> fst ` set allItems" by (simp add: map_of_None_keys)
    then have "specific_step allItems acc k = acc"
      using assms by (simp add: specific_step_def js_in_def)
    moreover have "map_of allItems |` {k} = Map.empty"
      using None by (auto simp: restrict_map_def)
    ultimately show ?thesis by simp
  next
    case (Some v)
    then have "k \<in> fst ` set allItems"
      using map_of_None_keys [of allItems k] by auto
    then have "specific_step allItems acc k = AList.update k v acc"
      using Some np by (simp add: specific_step_def js_in_def dict_read_def dict_assign_def)
    moreover have "map_of allItems |` {k} = [k \<mapsto> v]"
      using Some by (auto simp: restrict_map_def)
    ultimately show ?thesis by (simp add: update_conv')
  qed
qed

lemma restrict_insert_add: "(m |` {k}) ++ (m |` S) = m |` insert k S"
  by (rule ext) (simp add: map_add_def restrict_map_def split: option.splits)

lemma foldl_specific_step:
  assumes "set ns \<inter> set Object_prototype_keys = {}"
  shows "map_of (foldl (specific_step allItems) acc ns) = map_of acc ++ (map_of allItems |` set ns)"
  using assms
proof (induction ns arbitrary: acc)
  case Nil
  then show ?case by simp
next
  case (Cons n ns)
  have n: "n \<notin> set Object_prototype_keys" and ns: "set ns \<inter> set Object_prototype_keys = {}"
    using Cons.prems by auto
  have "map_of (foldl (specific_step allItems) (specific_step allItems acc n) ns) =
        map_of (specific_step allItems acc n) ++ (map_of allItems |` set ns)"
    by (rule Cons.IH [OF ns])
  also have "\<dots> = map_of acc ++ ((map_of allItems |` {n}) ++ (map_of allItems |` set ns))"
    by (simp add: specific_step_own [OF n])
  finally show ?case by (simp add: restrict_insert_add)
qed

text \<open>
  For item numbers that are not names of members of \<open>Object.prototype\<close>, the result of
  \<open>extractSpecificItems\<close> is the full extraction restricted to the requested numbers.
\<close>

lemma extractSpecificItems_restricts:
  assumes "extractItems eng text0 form_type = Inr allItems"
    and "set itemNumbers \<inter> set Object_prototype_keys = {}"
  shows "\<exists>result. extractSpecificItems eng text0 form_type itemNumbers = Inr result \<and>
           map_of result = map_of allItems |` set itemNumbers"
  using foldl_specific_step [OF assms(2), of allItems "[]"] assms(1)
  by (simp add: extractSpecificItems_def)

lemma registry_numbers_not_toString:
  "formItems ft = Some defs \<Longrightarrow> ''toString'' \<notin> number ` set defs"
  by (cases ft) (auto simp: FORM_10K_ITEMS_def FORM_10Q_ITEMS_def FORM_8K_ITEMS_def item_def)

text \<open>
  For every filing and every supported form type, a request for the item number
  \<open>toString\<close> is answered with a key that the full extraction does not have: the \<open>in\<close>
  test finds the member of \<open>Object.prototype\<close>.
\<close>

lemma extractSpecificItems_toString:
  assumes "extractItems eng text0 form_type = Inr allItems"
  shows "extractSpecificItems eng text0 form_type [''toString''] =
           Inr [(''toString'', Inherited ''toString'')] \<and>
         ''toString'' \<notin> fst ` set allItems"
proof -
  obtain ft defs where "formItems ft = Some defs" "fst ` set allItems \<subseteq> number ` set defs"
    using extractItems_keys [OF assms] by blast
  then have notin: "''toString'' \<notin> fst ` set allItems"
    using registry_numbers_not_toString by blast
  then have "map_of allItems ''toString'' = None" by (simp add: map_of_None_keys)
  then show ?thesis
    using assms notin
    by (simp add: extractSpecificItems_def specific_step_def js_in_def dict_read_def
        dict_assign_def Object_prototype_keys_def)
qed

text \<open>
  Claim C7 at the failing input: on the sample filing the full extraction has the single
  key \<open>1\<close>, and the request for \<open>1\<close> and \<open>toString\<close> returns two keys, the second one with a
  built-in function for its value.
\<close>

theorem extractSpecificItems_inherited_member:
  "extractItems item_engine sample_filing ''10-K'' = Inr [(''1'', Content sample_filing)] \<and>
   extractSpecificItems item_engine sample_filing ''10-K'' [''1'', ''toString''] =
     Inr [(''1'', Content sample_filing), (''toString'', Inherited ''toString'')]"
  by (simp add: extractSpecificItems_def extractItems_sample specific_step_def js_in_def
      dict_read_def dict_assign_def Object_prototype_keys_def)

end
